theory Spec2Isabelle
  imports Complex_Main
begin

section \<open>Numeric model\<close>

text \<open>
  The geometry library works on numpy arrays of 64-bit floats. The embedding idealises
  a finite float as a \<^typ>\<open>real\<close> and keeps the one effect of floating point that the
  properties below depend on: numpy does not raise on a division by zero, it returns an
  array holding NaN or Inf. Such a result is the value \<open>Inl NonFinite\<close>, for the array
  as a whole; every later arithmetic operation on it stays non-finite (and a library
  routine that checks its input, like \<open>scipy.linalg.lstsq\<close>, raises on it), so it is
  propagated like an error. Exceptions that Python really raises are the other
  constructors. Rounding is not modelled: equalities below hold exactly over the reals
  and up to rounding error in the program.

  Where the code returns normally a structure of which only some vectors are NaN
  (\<open>quadratic_surf_rotation\<close>, \<open>define_coil_orientation\<close>, \<open>place_coil\<close>), every vector of
  the structure is a \<open>vec3 result\<close> of its own and the call itself is an \<open>Inr\<close>. A vector
  computed from a NaN operand by a product, a cross product or a division by its norm
  is NaN in every component.
\<close>

datatype failure = NonFinite | ZeroDivisionError | ValueError | IndexError | LinAlgError

type_synonym 'a result = "failure + 'a"

type_synonym vec2 = "real \<times> real"
type_synonym vec3 = "real \<times> real \<times> real"
type_synonym vec4 = "real \<times> real \<times> real \<times> real"
type_synonym mat2 = "vec2 \<times> vec2"
type_synonym mat3 = "vec3 \<times> vec3 \<times> vec3"
type_synonym mat4 = "vec4 \<times> vec4 \<times> vec4 \<times> vec4"
type_synonym coeffs = "real \<times> real \<times> real \<times> real \<times> real \<times> real"

text \<open>Matrices are tuples of rows. The numpy primitives on 3-vectors:\<close>

fun dot3 :: "vec3 \<Rightarrow> vec3 \<Rightarrow> real" where
  "dot3 (a1, a2, a3) (b1, b2, b3) = a1 * b1 + a2 * b2 + a3 * b3"

fun cross3 :: "vec3 \<Rightarrow> vec3 \<Rightarrow> vec3" where
  "cross3 (a1, a2, a3) (b1, b2, b3) =
     (a2 * b3 - a3 * b2, a3 * b1 - a1 * b3, a1 * b2 - a2 * b1)"

definition norm3 :: "vec3 \<Rightarrow> real" where
  "norm3 v = sqrt (dot3 v v)"

fun add3 :: "vec3 \<Rightarrow> vec3 \<Rightarrow> vec3" where
  "add3 (a1, a2, a3) (b1, b2, b3) = (a1 + b1, a2 + b2, a3 + b3)"

fun sub3 :: "vec3 \<Rightarrow> vec3 \<Rightarrow> vec3" where
  "sub3 (a1, a2, a3) (b1, b2, b3) = (a1 - b1, a2 - b2, a3 - b3)"

fun scale3 :: "real \<Rightarrow> vec3 \<Rightarrow> vec3" where
  "scale3 k (a1, a2, a3) = (k * a1, k * a2, k * a3)"

definition neg3 :: "vec3 \<Rightarrow> vec3" where
  "neg3 v = scale3 (- 1) v"

text \<open>\<open>v / np.linalg.norm(v)\<close>: the zero vector gives \<open>0 / 0\<close>, an array of NaN.\<close>

definition unitize :: "vec3 \<Rightarrow> vec3 result" where
  "unitize v = (if norm3 v = 0 then Inl NonFinite else Inr (scale3 (1 / norm3 v) v))"

text \<open>The same operations on a vector that may be NaN.\<close>

definition unitize_f :: "vec3 result \<Rightarrow> vec3 result" where
  "unitize_f v = (case v of Inl e \<Rightarrow> Inl e | Inr a \<Rightarrow> unitize a)"

definition cross3_f :: "vec3 result \<Rightarrow> vec3 result \<Rightarrow> vec3 result" where
  "cross3_f a b =
     (case a of
        Inl e \<Rightarrow> Inl e
      | Inr x \<Rightarrow> (case b of Inl e \<Rightarrow> Inl e | Inr y \<Rightarrow> Inr (cross3 x y)))"

definition eye3 :: mat3 where
  "eye3 = ((1, 0, 0), (0, 1, 0), (0, 0, 1))"

fun madd3 :: "mat3 \<Rightarrow> mat3 \<Rightarrow> mat3" where
  "madd3 (r1, r2, r3) (s1, s2, s3) = (add3 r1 s1, add3 r2 s2, add3 r3 s3)"

fun mscale3 :: "real \<Rightarrow> mat3 \<Rightarrow> mat3" where
  "mscale3 k (r1, r2, r3) = (scale3 k r1, scale3 k r2, scale3 k r3)"

fun transpose3 :: "mat3 \<Rightarrow> mat3" where
  "transpose3 ((a11, a12, a13), (a21, a22, a23), (a31, a32, a33)) =
     ((a11, a21, a31), (a12, a22, a32), (a13, a23, a33))"

fun matvec3 :: "mat3 \<Rightarrow> vec3 \<Rightarrow> vec3" where
  "matvec3 (r1, r2, r3) v = (dot3 r1 v, dot3 r2 v, dot3 r3 v)"

definition matvec3_f :: "mat3 \<Rightarrow> vec3 result \<Rightarrow> vec3 result" where
  "matvec3_f M v = (case v of Inl e \<Rightarrow> Inl e | Inr a \<Rightarrow> Inr (matvec3 M a))"

definition matmul3 :: "mat3 \<Rightarrow> mat3 \<Rightarrow> mat3" where
  "matmul3 A B =
     (case transpose3 B of (c1, c2, c3) \<Rightarrow>
        transpose3 (matvec3 A c1, matvec3 A c2, matvec3 A c3))"

section \<open>Frame algebra (geometry.py)\<close>

fun skew :: "vec3 \<Rightarrow> mat3" where
  "skew (v0, v1, v2) = ((0, - v2, v1), (v2, 0, - v0), (- v1, v0, 0))"

text \<open>
  \<open>rotate_vec2vec\<close>: \<open>n = cross(v1, v2)\<close>, \<open>sinv = norm(n)\<close>, \<open>cosv = dot(v1, v2)\<close>,
  \<open>R = eye(3) + skew(n) + matmul(skew(n), skew(n)) * (1 - cosv) / sinv**2\<close>.
  There is no guard on \<open>sinv\<close>: when it is zero the last summand is \<open>0 / 0\<close>.
\<close>

definition rotate_vec2vec :: "vec3 \<Rightarrow> vec3 \<Rightarrow> mat3 result" where
  "rotate_vec2vec v1 v2 =
     (let n = cross3 v1 v2;
          sinv = norm3 n;
          cosv = dot3 v1 v2
      in if sinv ^ 2 = 0 then Inl NonFinite
         else Inr (madd3 (madd3 eye3 (skew n))
                     (mscale3 (1 / sinv ^ 2)
                        (mscale3 (1 - cosv) (matmul3 (skew n) (skew n))))))"

text \<open>4x4 homogeneous matrices, and the slices \<open>M[:3, :3]\<close> and \<open>M[:3, 3]\<close>.\<close>

fun dot4 :: "vec4 \<Rightarrow> vec4 \<Rightarrow> real" where
  "dot4 (a1, a2, a3, a4) (b1, b2, b3, b4) = a1 * b1 + a2 * b2 + a3 * b3 + a4 * b4"

fun transpose4 :: "mat4 \<Rightarrow> mat4" where
  "transpose4 ((a11, a12, a13, a14), (a21, a22, a23, a24),
               (a31, a32, a33, a34), (a41, a42, a43, a44)) =
     ((a11, a21, a31, a41), (a12, a22, a32, a42),
      (a13, a23, a33, a43), (a14, a24, a34, a44))"

fun matvec4 :: "mat4 \<Rightarrow> vec4 \<Rightarrow> vec4" where
  "matvec4 (r1, r2, r3, r4) v = (dot4 r1 v, dot4 r2 v, dot4 r3 v, dot4 r4 v)"

definition matmul4 :: "mat4 \<Rightarrow> mat4 \<Rightarrow> mat4" where
  "matmul4 A B =
     (case transpose4 B of (c1, c2, c3, c4) \<Rightarrow>
        transpose4 (matvec4 A c1, matvec4 A c2, matvec4 A c3, matvec4 A c4))"

definition eye4 :: mat4 where
  "eye4 = ((1, 0, 0, 0), (0, 1, 0, 0), (0, 0, 1, 0), (0, 0, 0, 1))"

fun get_rot :: "mat4 \<Rightarrow> mat3" where
  "get_rot ((a11, a12, a13, a14), (a21, a22, a23, a24),
            (a31, a32, a33, a34), (a41, a42, a43, a44)) =
     ((a11, a12, a13), (a21, a22, a23), (a31, a32, a33))"

fun set_rot :: "mat4 \<Rightarrow> mat3 \<Rightarrow> mat4" where
  "set_rot ((a11, a12, a13, a14), (a21, a22, a23, a24),
            (a31, a32, a33, a34), r4)
           ((b11, b12, b13), (b21, b22, b23), (b31, b32, b33)) =
     ((b11, b12, b13, a14), (b21, b22, b23, a24), (b31, b32, b33, a34), r4)"

fun get_trans :: "mat4 \<Rightarrow> vec3" where
  "get_trans ((a11, a12, a13, a14), (a21, a22, a23, a24),
              (a31, a32, a33, a34), r4) = (a14, a24, a34)"

fun set_trans :: "mat4 \<Rightarrow> vec3 \<Rightarrow> mat4" where
  "set_trans ((a11, a12, a13, a14), (a21, a22, a23, a24),
              (a31, a32, a33, a34), r4) (t1, t2, t3) =
     ((a11, a12, a13, t1), (a21, a22, a23, t2), (a31, a32, a33, t3), r4)"

text \<open>
  \<open>affine(A, x)\<close>: append 1 to every point, multiply by \<open>A\<close>, keep the first three
  coordinates.
\<close>

fun affine_pt :: "mat4 \<Rightarrow> vec3 \<Rightarrow> vec3" where
  "affine_pt A (x1, x2, x3) =
     (case matvec4 A (x1, x2, x3, 1) of (y1, y2, y3, y4) \<Rightarrow> (y1, y2, y3))"

definition affine :: "mat4 \<Rightarrow> vec3 list \<Rightarrow> vec3 list" where
  "affine A x = map (affine_pt A) x"

section \<open>Quadric fitter (geometry.py)\<close>

text \<open>
  \<open>scipy.linalg.lstsq\<close> belongs to the linear-algebra library. It is a parameter of
  the model: given the design matrix and the right-hand side it raises, or returns the
  solution, the residues, the effective rank and the singular values.
\<close>

type_synonym lstsq_fn =
  "coeffs list \<Rightarrow> real list \<Rightarrow> (coeffs \<times> real list \<times> nat \<times> real list) result"

fun design_row :: "vec2 \<Rightarrow> coeffs" where
  "design_row (x, y) = (1, x, y, x * y, x ^ 2, y ^ 2)"

definition quad_fit :: "lstsq_fn \<Rightarrow> vec2 list \<Rightarrow> real list \<Rightarrow> coeffs result" where
  "quad_fit lstsq X b =
     (let A = map design_row X
      in case lstsq A b of
           Inl e \<Rightarrow> Inl e
         | Inr (C, residues, rank, s) \<Rightarrow> Inr C)"

text \<open>
  What the library documents for a call that returns: the solution minimises the
  residual sum of squares, and among the minimisers it has the least Euclidean norm.
\<close>

fun dot6 :: "coeffs \<Rightarrow> coeffs \<Rightarrow> real" where
  "dot6 (a0, a1, a2, a3, a4, a5) (b0, b1, b2, b3, b4, b5) =
     a0 * b0 + a1 * b1 + a2 * b2 + a3 * b3 + a4 * b4 + a5 * b5"

definition residual :: "coeffs list \<Rightarrow> real list \<Rightarrow> coeffs \<Rightarrow> real" where
  "residual A b C = (\<Sum>(r, h) \<leftarrow> zip A b. (dot6 r C - h) ^ 2)"

definition is_lstsq :: "coeffs list \<Rightarrow> real list \<Rightarrow> coeffs \<Rightarrow> bool" where
  "is_lstsq A b C \<longleftrightarrow>
     (\<forall>C'. residual A b C \<le> residual A b C') \<and>
     (\<forall>C'. (\<forall>C''. residual A b C' \<le> residual A b C'') \<longrightarrow> dot6 C C \<le> dot6 C' C')"


text \<open>A least-squares routine honours the contract when every answer it returns does.\<close>

definition lstsq_contract :: "lstsq_fn \<Rightarrow> bool" where
  "lstsq_contract solve \<longleftrightarrow>
     (\<forall>A b Cf res rk sv. solve A b = Inr (Cf, res, rk, sv) \<longrightarrow> is_lstsq A b Cf)"

section \<open>Differential geometry (geometry.py)\<close>

text \<open>
  \<open>np.linalg.eig\<close> belongs to the linear-algebra library; it is a parameter of the
  model, returning the eigenvalues and the matrix whose columns are the eigenvectors.
\<close>

type_synonym eig_fn = "mat2 \<Rightarrow> vec2 \<times> mat2"

definition zcomp :: "vec3 \<Rightarrow> real" where
  "zcomp v = snd (snd v)"

text \<open>The first partial derivatives \<open>r_x\<close> and \<open>r_y\<close> of \<open>compute_principal_dir\<close>.\<close>

fun r_x :: "real \<Rightarrow> real \<Rightarrow> coeffs \<Rightarrow> vec3" where
  "r_x x y (c0, c1, c2, c3, c4, c5) = (1, 0, 2 * c4 * x + c1 + c3 * y)"

fun r_y :: "real \<Rightarrow> real \<Rightarrow> coeffs \<Rightarrow> vec3" where
  "r_y x y (c0, c1, c2, c3, c4, c5) = (0, 1, 2 * c5 * y + c2 + c3 * x)"

definition compute_principal_dir ::
  "eig_fn \<Rightarrow> real \<Rightarrow> real \<Rightarrow> coeffs \<Rightarrow> (vec3 \<times> vec3 \<times> vec3) result" where
  "compute_principal_dir eig x y C =
     (case C of (c0, c1, c2, c3, c4, c5) \<Rightarrow>
        let r_xx = (0, 0, 2 * c4);
            r_yy = (0, 0, 2 * c5);
            r_xy = (0, 0, c3);
            r_x_cross_y = cross3 (r_x x y C) (r_y x y C)
        in (case unitize r_x_cross_y of
              Inl e \<Rightarrow> Inl e
            | Inr n \<Rightarrow>
                let L = dot3 r_xx n; M = dot3 r_xy n; N = dot3 r_yy n;
                    P = ((L, M), (M, N))
                in (case eig P of (w, ((V00, V01), (V10, V11))) \<Rightarrow>
                      Inr ((V00, V10, 0), (V01, V11, 0), n))))"

text \<open>
  Elementwise addition of two 1-D arrays with numpy's broadcasting: equal lengths, or
  one operand of length 1; anything else raises.
\<close>

definition bcast_add :: "real list \<Rightarrow> real list \<Rightarrow> real list result" where
  "bcast_add a b =
     (if length a = length b then Inr (map2 (+) a b)
      else if length a = 1 then Inr (map (\<lambda>x. hd a + x) b)
      else if length b = 1 then Inr (map (\<lambda>x. x + hd b) a)
      else Inl ValueError)"

text \<open>
  \<open>interpolate_angle(u, v, t, l)\<close>: \<open>theta = (t / l) * (pi / 2)\<close> and
  \<open>p = np.r_[u * cos(theta) + v * sin(theta), 0]\<close>: a zero is appended to the blend.
\<close>

definition interpolate_angle ::
  "real list \<Rightarrow> real list \<Rightarrow> real \<Rightarrow> real \<Rightarrow> real list result" where
  "interpolate_angle u v t l =
     (if l = 0 then Inl ZeroDivisionError
      else let theta = (t / l) * (pi / 2)
           in case bcast_add (map (\<lambda>a. a * cos theta) u) (map (\<lambda>b. b * sin theta) v) of
                Inl e \<Rightarrow> Inl e
              | Inr s \<Rightarrow> Inr (s @ [0]))"

fun quadratic_surf :: "real \<Rightarrow> real \<Rightarrow> coeffs \<Rightarrow> real" where
  "quadratic_surf x y (c0, c1, c2, c3, c4, c5) =
     c0 + c1 * x + c2 * y + c3 * x * y + c4 * x * x + c5 * y * y"

definition quadratic_surf_position :: "real \<Rightarrow> real \<Rightarrow> coeffs \<Rightarrow> vec3" where
  "quadratic_surf_position x y C = (x, y, quadratic_surf x y C)"

text \<open>
  \<open>quadratic_surf_rotation\<close> calls \<open>interpolate_angle\<close> with the default period 90 on
  the first two components of the principal directions, and rotates the result by
  \<open>rotate_vec2vec(z, n)\<close>. When that rotation is degenerate the matrix is NaN and so is
  the rotated direction \<open>pp\<close>; the function still returns the pair of \<open>pp\<close> and the
  (finite) normal.
\<close>

definition quadratic_surf_rotation ::
  "eig_fn \<Rightarrow> real \<Rightarrow> real \<Rightarrow> real \<Rightarrow> coeffs \<Rightarrow> (vec3 result \<times> vec3) result" where
  "quadratic_surf_rotation eig x y t C =
     (case compute_principal_dir eig x y C of
        Inl e \<Rightarrow> Inl e
      | Inr ((v10, v11, v12), (v20, v21, v22), n) \<Rightarrow>
          (case interpolate_angle [v10, v11] [v20, v21] t 90 of
             Inl e \<Rightarrow> Inl e
           | Inr p \<Rightarrow>
               (case p of
                  [p0, p1, p2] \<Rightarrow>
                    Inr (case rotate_vec2vec (0, 0, 1) n of
                           Inl e \<Rightarrow> Inl e
                         | Inr R \<Rightarrow> Inr (matvec3 R (p0, p1, p2)),
                         n)
                | _ \<Rightarrow> Inl ValueError)))"

text \<open>
  \<open>define_coil_orientation(loc, rot, n)\<close> always returns a 4x4 array: its columns are
  \<open>x = cross(y, z)\<close>, \<open>y = rot / norm(rot)\<close>, \<open>z = n / norm(n)\<close> and \<open>loc\<close>, each of which
  may be NaN; the last row is the last row of \<open>np.zeros((4, 4))\<close> with entry \<open>[3, 3]\<close> set
  to 1.
\<close>

record matsimnibs =
  x_col :: "vec3 result"
  y_col :: "vec3 result"
  z_col :: "vec3 result"
  c_col :: "vec3 result"
  bottom_row :: vec4

definition define_coil_orientation ::
  "vec3 result \<Rightarrow> vec3 result \<Rightarrow> vec3 result \<Rightarrow> matsimnibs" where
  "define_coil_orientation loc rot n =
     (let y = unitize_f rot;
          z = unitize_f n;
          x = cross3_f y z;
          c = loc
      in \<lparr>x_col = x, y_col = y, z_col = z, c_col = c, bottom_row = (0, 0, 0, 1)\<rparr>)"

section \<open>Sampling domain (domains.py)\<close>

record mesh =
  coords :: "vec3 list"
  nodes :: "nat list"
  trigs :: "(nat \<times> nat \<times> nat) list"

text \<open>
  The module \<open>fieldopt.geometry.mesh\<close> and the numerical routines are collaborators of
  the domain; the model takes them as parameters. \<open>get_normals\<close> is used by the code as
  one 3-vector (it is divided by its norm and handed to \<open>rotate_vec2vec\<close>).
\<close>

record collab =
  closest_point2surf :: "vec3 list \<Rightarrow> vec3 list \<Rightarrow> vec3"
  get_normals :: "nat list \<Rightarrow> nat list \<Rightarrow> vec3 list \<Rightarrow> (nat \<times> nat \<times> nat) list \<Rightarrow> vec3"
  lstsq :: lstsq_fn
  eig :: eig_fn

text \<open>
  Modelled from the spec: \<open>fieldopt.geometry.mesh.get_normals\<close> is not among the sources.
  The spec has the mesh collaborator return a normal estimate for each index of the
  neighbourhood, derived from the adjacent triangles, and has the estimates averaged before
  the normalisation. The code divides the result of \<open>get_normals\<close> by its norm and uses
  it as one 3-vector, so the average is taken inside \<open>get_normals\<close>; the per-point
  estimator \<open>est\<close> is a parameter. (The mean of no estimates is NaN in numpy; here it is
  the zero vector, which \<open>unitize\<close> turns into \<open>NonFinite\<close> all the same.)
\<close>

definition mean3 :: "vec3 list \<Rightarrow> vec3" where
  "mean3 vs = scale3 (1 / real (length vs)) (foldr add3 vs (0, 0, 0))"

definition get_normals_mean ::
  "(nat list \<Rightarrow> nat list \<Rightarrow> vec3 list \<Rightarrow> (nat \<times> nat \<times> nat) list \<Rightarrow> vec3 list) \<Rightarrow>
     nat list \<Rightarrow> nat list \<Rightarrow> vec3 list \<Rightarrow> (nat \<times> nat \<times> nat) list \<Rightarrow> vec3" where
  "get_normals_mean est point_tags all_tags cs ts = mean3 (est point_tags all_tags cs ts)"

record quadratic_domain =
  span :: real
  local_span :: real
  distance :: real
  self_C :: coeffs
  self_iR :: mat4
  bounds :: "vec3 \<times> vec3"

text \<open>\<open>np.where(norm(mesh.coords - p, axis=1) < r)\<close>\<close>

definition neighbours_ind :: "vec3 list \<Rightarrow> vec3 \<Rightarrow> real \<Rightarrow> nat list" where
  "neighbours_ind cs p r = filter (\<lambda>i. norm3 (sub3 (cs ! i) p) < r) [0..<length cs]"

text \<open>
  The frame construction of \<open>_construct_local_quadric\<close>, statement by statement.
  \<open>iR = R\<close> and \<open>iT = T\<close> bind a second name to the same array, so the two slice
  assignments overwrite \<open>R\<close> and \<open>T\<close>; \<open>affine = R @ T\<close> is a new array computed before.
  In \<open>iR[:3, :3] = iR[:3, :3].T\<close> the right-hand side is a view of the target; numpy
  assigns overlapping arrays as if the source had been copied first.
\<close>

definition local_frames :: "mat3 \<Rightarrow> vec3 \<Rightarrow> mat4 \<times> mat4" where
  "local_frames rot p =
     (let R = set_rot eye4 rot;
          T = set_trans eye4 (neg3 p);
          affine_m = matmul4 R T;
          R = set_rot R (transpose3 (get_rot R));
          iR = R;
          T = set_trans T (neg3 (get_trans T));
          iT = T;
          i_affine = matmul4 iT iR
      in (affine_m, i_affine))"

text \<open>
  \<open>_construct_local_quadric\<close>. A NaN normal or rotation makes the transformed neighbourhood
  NaN, which the least-squares routine rejects; the model reports \<open>NonFinite\<close> where the
  NaN arises.
\<close>

definition construct_local_quadric ::
  "collab \<Rightarrow> real \<Rightarrow> mesh \<Rightarrow> vec3 \<Rightarrow> (coeffs \<times> mat4 \<times> mat4) result" where
  "construct_local_quadric mg lspan m p =
     (let ind = neighbours_ind (coords m) p lspan;
          neighbours = map (\<lambda>i. coords m ! i) ind
      in if \<exists>i \<in> set ind. length (nodes m) \<le> i then Inl IndexError
         else
           let normals = get_normals mg (map (\<lambda>i. nodes m ! i) ind) (nodes m)
                           (coords m) (trigs m)
           in case unitize normals of
                Inl e \<Rightarrow> Inl e
              | Inr n \<Rightarrow>
                  (case rotate_vec2vec n (0, 0, 1) of
                     Inl e \<Rightarrow> Inl e
                   | Inr rot \<Rightarrow>
                       (case local_frames rot p of
                          (affine_m, i_affine) \<Rightarrow>
                            let r_neighbours = affine affine_m neighbours
                            in (case quad_fit (lstsq mg)
                                       (map (\<lambda>(x, y, z). (x, y)) r_neighbours)
                                       (map (\<lambda>(x, y, z). z) r_neighbours) of
                                  Inl e \<Rightarrow> Inl e
                                | Inr C \<Rightarrow> Inr (C, affine_m, i_affine)))))"





text \<open>
  \<open>_get_sample\<close>. Once the local quadric is built, the normal and its image under the
  inverse rotation are unit vectors, so the two divisions by a norm are never \<open>0 / 0\<close>
  (\<open>get_sample_returns\<close> below).
\<close>

definition get_sample ::
  "collab \<Rightarrow> quadratic_domain \<Rightarrow> mesh \<Rightarrow> real \<Rightarrow> real \<Rightarrow>
     (vec3 \<times> mat4 \<times> coeffs \<times> vec3) result" where
  "get_sample mg d m x y =
     (let pp = [quadratic_surf_position x y (self_C d)];
          p = affine (self_iR d) pp;
          v = closest_point2surf mg p (coords m)
      in case construct_local_quadric mg (local_span d) m v of
           Inl e \<Rightarrow> Inl e
         | Inr (C1, _, iR1) \<Rightarrow>
             (case compute_principal_dir (eig mg) 0 0 C1 of
                Inl e \<Rightarrow> Inl e
              | Inr (_, _, n) \<Rightarrow>
                  (case unitize (matvec3 (get_rot iR1) n) of
                     Inl e \<Rightarrow> Inl e
                   | Inr n_r \<Rightarrow>
                       let sample = add3 v (scale3 (distance d) n_r)
                       in Inr (sample, iR1, C1, n))))"

text \<open>
  \<open>place_coil(self, mesh, x, y, theta, flip_norm=True)\<close>: the last argument is
  optional, \<open>None\<close> is a call that omits it. A NaN direction from
  \<open>quadratic_surf_rotation\<close> is carried into the matrix that is returned.
\<close>

definition place_coil ::
  "collab \<Rightarrow> quadratic_domain \<Rightarrow> mesh \<Rightarrow> real \<Rightarrow> real \<Rightarrow> real \<Rightarrow> bool option \<Rightarrow>
     matsimnibs result" where
  "place_coil mg d m x y theta flip_norm_arg =
     (let flip_norm = (case flip_norm_arg of None \<Rightarrow> True | Some b \<Rightarrow> b)
      in case get_sample mg d m x y of
           Inl e \<Rightarrow> Inl e
         | Inr (sample, R, C1, _) \<Rightarrow>
             (case quadratic_surf_rotation (eig mg) 0 0 theta C1 of
                Inl e \<Rightarrow> Inl e
              | Inr (preaff_rot, preaff_norm) \<Rightarrow>
                  let rot = matvec3_f (get_rot R) preaff_rot;
                      n = matvec3 (get_rot R) preaff_norm;
                      normflip = (if flip_norm then - 1 else 1)
                  in Inr (define_coil_orientation (Inr sample) rot
                            (Inr (scale3 normflip n)))))"

section \<open>A concrete placement\<close>

text \<open>
  The smallest mesh, one vertex at the origin with normal estimate \<open>(1, 0, 0)\<close>, and
  stand-ins for the library routines, on which the functions above are run below:
  a least-squares routine that answers fits against an all-zero right-hand side (the
  answer is the zero vector, see \<open>lstsq_zero_rhs_contract\<close>) and raises otherwise, one that
  always answers a given coefficient vector, and the eigen-decomposition of a diagonal
  matrix.
\<close>

definition lstsq_zero_rhs :: lstsq_fn where
  "lstsq_zero_rhs A b =
     (if \<forall>h \<in> set b. h = 0 then Inr ((0, 0, 0, 0, 0, 0), [], 0, []) else Inl LinAlgError)"

definition lstsq_const :: "coeffs \<Rightarrow> lstsq_fn" where
  "lstsq_const Cf A b = Inr (Cf, [], 0, [])"

definition eig_diag :: eig_fn where
  "eig_diag P = (case P of ((l, m), (m', n)) \<Rightarrow> ((l, n), ((1, 0), (0, 1))))"

definition demo_mesh :: mesh where
  "demo_mesh = \<lparr>coords = [(0, 0, 0)], nodes = [0], trigs = []\<rparr>"

definition demo_mg :: "lstsq_fn \<Rightarrow> collab" where
  "demo_mg f =
     \<lparr>closest_point2surf = (\<lambda>q cs. hd cs),
      get_normals = get_normals_mean (\<lambda>tags all_tags cs ts. map (\<lambda>t. (1, 0, 0)) tags),
      lstsq = f,
      eig = eig_diag\<rparr>"

definition demo_fwd :: mat4 where
  "demo_fwd = ((0, 0, - 1, 0), (0, 1, 0, 0), (1, 0, 0, 0), (0, 0, 0, 1))"

definition demo_bwd :: mat4 where
  "demo_bwd = ((0, 0, 1, 0), (0, 1, 0, 0), (- 1, 0, 0, 0), (0, 0, 0, 1))"

definition demo_domain :: "coeffs \<Rightarrow> quadratic_domain" where
  "demo_domain Cf =
     \<lparr>span = 35, local_span = 8, distance = 1, self_C = Cf, self_iR = demo_bwd,
      bounds = ((0, 0, 0), (0, 0, 0))\<rparr>"

definition demo_C :: coeffs where
  "demo_C = (0, 0, 3 / 4, 0, 0, 0)"

definition demo_pose :: matsimnibs where
  "demo_pose =
     \<lparr>x_col = Inr (3 / 5, 4 / 5, 0), y_col = Inr (0, 0, - 1),
      z_col = Inr (- (4 / 5), 3 / 5, 0), c_col = Inr (4 / 5, - (3 / 5), 0),
      bottom_row = (0, 0, 0, 1)\<rparr>"

text \<open>
  A domain whose coarse fit (flat, identity frame) differs from the fine fit of the mesh
  above, with standoff 2; and the result of \<open>place_coil\<close> on a flat fine fit.
\<close>

definition coarse_domain :: quadratic_domain where
  "coarse_domain =
     \<lparr>span = 35, local_span = 8, distance = 2, self_C = (0, 0, 0, 0, 0, 0),
      self_iR = eye4, bounds = ((0, 0, 0), (0, 0, 0))\<rparr>"

definition flat_pose :: matsimnibs where
  "flat_pose =
     \<lparr>x_col = Inl NonFinite, y_col = Inl NonFinite, z_col = Inr (- 1, 0, 0),
      c_col = Inr (1, 0, 0), bottom_row = (0, 0, 0, 1)\<rparr>"


section \<open>Notions used by the properties\<close>

text \<open>
  The rotation block of a pose or frame is orthonormal when its columns have unit length
  and are pairwise orthogonal.
\<close>

definition orthonormal_columns :: "mat3 \<Rightarrow> bool" where
  "orthonormal_columns M \<longleftrightarrow>
     (case transpose3 M of (c1, c2, c3) \<Rightarrow>
        norm3 c1 = 1 \<and> norm3 c2 = 1 \<and> norm3 c3 = 1 \<and>
        dot3 c1 c2 = 0 \<and> dot3 c1 c3 = 0 \<and> dot3 c2 c3 = 0)"

text \<open>The matrix with rotation block \<open>A\<close>, translation \<open>t\<close> and last row \<open>(0, 0, 0, 1)\<close>.\<close>

definition rigid :: "mat3 \<Rightarrow> vec3 \<Rightarrow> mat4" where
  "rigid A t = set_trans (set_rot eye4 A) t"

text \<open>
  The mesh point a sample is snapped to: the first three statements of \<open>_get_sample\<close>.
\<close>

definition snapped_point :: "collab \<Rightarrow> quadratic_domain \<Rightarrow> mesh \<Rightarrow> real \<Rightarrow> real \<Rightarrow> vec3" where
  "snapped_point mg d m x y =
     closest_point2surf mg (affine (self_iR d) [quadratic_surf_position x y (self_C d)])
       (coords m)"

text \<open>Rodrigues' formula as a map on vectors: \<open>a + n \<times> a + k (n \<times> (n \<times> a))\<close>.\<close>

definition rodrigues :: "vec3 \<Rightarrow> real \<Rightarrow> vec3 \<Rightarrow> vec3" where
  "rodrigues n k a = add3 (add3 a (cross3 n a)) (scale3 k (cross3 n (cross3 n a)))"

section \<open>Properties\<close>

lemma dot3_self_nonneg: "0 \<le> dot3 v v"
  by (cases v) simp

lemma norm3_sq: "(norm3 v) ^ 2 = dot3 v v"
  by (simp add: norm3_def dot3_self_nonneg)

lemma norm3_zero_iff: "norm3 v = 0 \<longleftrightarrow> dot3 v v = 0"
  by (simp add: norm3_def)

lemma dot3_scale3: "dot3 (scale3 k a) (scale3 l b) = k * l * dot3 a b"
  by (cases a, cases b) (simp add: algebra_simps)

lemma unitize_unit:
  assumes "unitize v = Inr u"
  shows "dot3 u u = 1"
proof -
  from assms have nz: "norm3 v \<noteq> 0" and u: "u = scale3 (1 / norm3 v) v"
    by (auto simp: unitize_def split: if_splits)
  have "dot3 u u = (1 / norm3 v) * (1 / norm3 v) * (norm3 v) ^ 2"
    by (simp add: u dot3_scale3 norm3_sq)
  also have "\<dots> = 1"
    using nz by (simp add: power2_eq_square)
  finally show ?thesis .
qed

lemma matvec3_skew: "matvec3 (skew n) a = cross3 n a"
  by (cases n, cases a) simp

lemma matvec3_matmul3: "matvec3 (matmul3 A B) a = matvec3 A (matvec3 B a)"
  by (cases A rule: prod_cases3, cases B rule: prod_cases3, cases a rule: prod_cases3)
     (auto simp: matmul3_def algebra_simps split: prod.splits)

lemma matvec3_madd3: "matvec3 (madd3 A B) a = add3 (matvec3 A a) (matvec3 B a)"
  by (cases A rule: prod_cases3, cases B rule: prod_cases3, cases a rule: prod_cases3)
     (auto simp: algebra_simps)

lemma matvec3_mscale3: "matvec3 (mscale3 k A) a = scale3 k (matvec3 A a)"
  by (cases A rule: prod_cases3, cases a rule: prod_cases3)
     (auto simp: algebra_simps)

lemma matvec3_eye3: "matvec3 eye3 a = a"
  by (cases a) (simp add: eye3_def)

lemma scale3_scale3: "scale3 k (scale3 l a) = scale3 (k * l) a"
  by (cases a) simp

lemma rotate_vec2vec_matvec3:
  assumes "rotate_vec2vec v1 v2 = Inr R"
  shows "matvec3 R a =
           rodrigues (cross3 v1 v2)
             ((1 - dot3 v1 v2) / dot3 (cross3 v1 v2) (cross3 v1 v2)) a"
proof -
  define n where "n = cross3 v1 v2"
  from assms have nz: "(norm3 n)\<^sup>2 \<noteq> 0"
    and R: "R = madd3 (madd3 eye3 (skew n))
                 (mscale3 (1 / (norm3 n)\<^sup>2)
                    (mscale3 (1 - dot3 v1 v2) (matmul3 (skew n) (skew n))))"
    by (auto simp: rotate_vec2vec_def Let_def n_def split: if_splits)
  have s2: "(norm3 n)\<^sup>2 = dot3 n n" by (rule norm3_sq)
  show ?thesis
    unfolding R s2 n_def [symmetric] rodrigues_def
    by (simp add: matvec3_madd3 matvec3_mscale3 matvec3_eye3 matvec3_skew matvec3_matmul3
          scale3_scale3)
qed

lemma rodrigues_dot:
  "dot3 (rodrigues n k a) (rodrigues n k b) =
     dot3 a b + (dot3 n n * dot3 a b - dot3 n a * dot3 n b) * (1 - 2 * k + k\<^sup>2 * dot3 n n)"
  by (cases n, cases a, cases b) (simp add: rodrigues_def algebra_simps power2_eq_square)

lemma lagrange: "dot3 (cross3 a b) (cross3 a b) = dot3 a a * dot3 b b - (dot3 a b)\<^sup>2"
  by (cases a, cases b) (simp add: algebra_simps power2_eq_square)

lemma rodrigues_apply_first:
  "rodrigues (cross3 a b) k a =
     add3 (scale3 (1 - dot3 a b - k * dot3 (cross3 a b) (cross3 a b)) a) (scale3 (dot3 a a) b)"
  by (cases a, cases b) (simp add: rodrigues_def algebra_simps power2_eq_square)

lemma transpose3_madd3: "transpose3 (madd3 A B) = madd3 (transpose3 A) (transpose3 B)"
  by (cases A rule: prod_cases3, cases B rule: prod_cases3) auto

lemma transpose3_mscale3: "transpose3 (mscale3 k A) = mscale3 k (transpose3 A)"
  by (cases A rule: prod_cases3) auto

lemma transpose3_eye3: "transpose3 eye3 = eye3"
  by (simp add: eye3_def)

lemma transpose3_skew: "transpose3 (skew n) = skew (neg3 n)"
  by (cases n) (simp add: neg3_def)

lemma transpose3_skew_sq:
  "transpose3 (matmul3 (skew n) (skew n)) = matmul3 (skew (neg3 n)) (skew (neg3 n))"
  by (cases n) (simp add: neg3_def matmul3_def algebra_simps)

lemma rotate_vec2vec_transpose_matvec3:
  assumes "rotate_vec2vec v1 v2 = Inr R"
  shows "matvec3 (transpose3 R) a =
           rodrigues (neg3 (cross3 v1 v2))
             ((1 - dot3 v1 v2) / dot3 (cross3 v1 v2) (cross3 v1 v2)) a"
proof -
  define n where "n = cross3 v1 v2"
  from assms have nz: "(norm3 n)\<^sup>2 \<noteq> 0"
    and R: "R = madd3 (madd3 eye3 (skew n))
                 (mscale3 (1 / (norm3 n)\<^sup>2)
                    (mscale3 (1 - dot3 v1 v2) (matmul3 (skew n) (skew n))))"
    by (auto simp: rotate_vec2vec_def Let_def n_def split: if_splits)
  have s2: "(norm3 n)\<^sup>2 = dot3 n n" by (rule norm3_sq)
  show ?thesis
    unfolding R s2 n_def [symmetric] rodrigues_def
    by (simp add: transpose3_madd3 transpose3_mscale3 transpose3_eye3 transpose3_skew
          transpose3_skew_sq matvec3_madd3 matvec3_mscale3 matvec3_eye3 matvec3_skew
          matvec3_matmul3 scale3_scale3)
qed

lemma dot3_neg3: "dot3 (neg3 a) b = - dot3 a b" "dot3 a (neg3 b) = - dot3 a b"
  by (cases a, cases b, simp add: neg3_def)+

lemma rodrigues_key:
  assumes "dot3 v1 v1 = 1" "dot3 v2 v2 = 1" "dot3 (cross3 v1 v2) (cross3 v1 v2) \<noteq> 0"
  defines "s2 \<equiv> dot3 (cross3 v1 v2) (cross3 v1 v2)"
  defines "k \<equiv> (1 - dot3 v1 v2) / s2"
  shows "1 - 2 * k + k\<^sup>2 * s2 = 0"
proof -
  define c where "c = dot3 v1 v2"
  have s2: "s2 = 1 - c\<^sup>2"
    unfolding s2_def c_def by (simp add: lagrange assms(1,2))
  have nz: "s2 \<noteq> 0" using assms(3) by (simp add: s2_def)
  have "k\<^sup>2 * s2 = (1 - c)\<^sup>2 / s2"
    using nz by (simp add: k_def c_def power2_eq_square)
  then have "1 - 2 * k + k\<^sup>2 * s2 = (s2 - 2 * (1 - c) + (1 - c)\<^sup>2) / s2"
    using nz by (simp add: k_def c_def field_simps)
  also have "s2 - 2 * (1 - c) + (1 - c)\<^sup>2 = 0"
    by (simp add: s2 power2_eq_square algebra_simps)
  finally show ?thesis by simp
qed

lemma rotate_vec2vec_nonzero:
  "rotate_vec2vec v1 v2 = Inr R \<Longrightarrow> dot3 (cross3 v1 v2) (cross3 v1 v2) \<noteq> 0"
  by (auto simp: rotate_vec2vec_def Let_def norm3_zero_iff split: if_splits)

lemma rotate_vec2vec_isometry:
  assumes "rotate_vec2vec v1 v2 = Inr R" "dot3 v1 v1 = 1" "dot3 v2 v2 = 1"
  shows "dot3 (matvec3 R a) (matvec3 R b) = dot3 a b"
    and "dot3 (matvec3 (transpose3 R) a) (matvec3 (transpose3 R) b) = dot3 a b"
proof -
  note nz = rotate_vec2vec_nonzero [OF assms(1)]
  note key = rodrigues_key [OF assms(2,3) nz]
  show "dot3 (matvec3 R a) (matvec3 R b) = dot3 a b"
    unfolding rotate_vec2vec_matvec3 [OF assms(1)] rodrigues_dot key by simp
  have neg: "dot3 (neg3 (cross3 v1 v2)) (neg3 (cross3 v1 v2)) = dot3 (cross3 v1 v2) (cross3 v1 v2)"
    by (simp add: dot3_neg3)
  show "dot3 (matvec3 (transpose3 R) a) (matvec3 (transpose3 R) b) = dot3 a b"
    unfolding rotate_vec2vec_transpose_matvec3 [OF assms(1)] rodrigues_dot neg key by simp
qed

lemma rotate_vec2vec_maps:
  assumes "rotate_vec2vec v1 v2 = Inr R" "dot3 v1 v1 = 1"
  shows "matvec3 R v1 = v2"
proof -
  note nz = rotate_vec2vec_nonzero [OF assms(1)]
  define s2 where "s2 = dot3 (cross3 v1 v2) (cross3 v1 v2)"
  have z: "1 - dot3 v1 v2 - (1 - dot3 v1 v2) / s2 * s2 = 0"
    using nz by (simp add: s2_def)
  have "matvec3 R v1 = add3 (scale3 0 v1) (scale3 1 v2)"
    unfolding rotate_vec2vec_matvec3 [OF assms(1)] rodrigues_apply_first
      s2_def [symmetric] z assms(2) ..
  then show ?thesis
    by (cases v1, cases v2) simp
qed

lemma norm3_one_iff: "norm3 v = 1 \<longleftrightarrow> dot3 v v = 1"
  by (simp add: norm3_def)

lemma local_frames_get_rot:
  "get_rot (fst (local_frames rot p)) = rot"
  "get_rot (snd (local_frames rot p)) = transpose3 rot"
  by (cases rot rule: prod_cases3, cases p rule: prod_cases3,
      auto simp: local_frames_def Let_def eye4_def matmul4_def neg3_def split: prod.splits)+

lemma local_frames_fwd:
  "affine_pt (fst (local_frames rot p)) a = matvec3 rot (sub3 a p)"
  by (cases rot rule: prod_cases3, cases p rule: prod_cases3, cases a rule: prod_cases3)
     (auto simp: local_frames_def Let_def eye4_def matmul4_def neg3_def algebra_simps
        split: prod.splits)

lemma local_frames_inv:
  "affine_pt (snd (local_frames rot p)) a = add3 (matvec3 (transpose3 rot) a) p"
  by (cases rot rule: prod_cases3, cases p rule: prod_cases3, cases a rule: prod_cases3)
     (auto simp: local_frames_def Let_def eye4_def matmul4_def neg3_def algebra_simps
        split: prod.splits)

lemma orthonormal_columns_inverse:
  assumes "orthonormal_columns M"
  shows "matvec3 (transpose3 M) (matvec3 M a) = a"
proof -
  obtain a11 a12 a13 a21 a22 a23 a31 a32 a33 where
    M: "M = ((a11, a12, a13), (a21, a22, a23), (a31, a32, a33))"
    by (cases M rule: prod_cases3) auto
  obtain x y z where a: "a = (x, y, z)" by (cases a) auto
  from assms have
    u1: "a11 * a11 + a21 * a21 + a31 * a31 = 1" and
    u2: "a12 * a12 + a22 * a22 + a32 * a32 = 1" and
    u3: "a13 * a13 + a23 * a23 + a33 * a33 = 1" and
    o12: "a11 * a12 + a21 * a22 + a31 * a32 = 0" and
    o13: "a11 * a13 + a21 * a23 + a31 * a33 = 0" and
    o23: "a12 * a13 + a22 * a23 + a32 * a33 = 0"
    by (simp_all add: orthonormal_columns_def M norm3_one_iff)
  have "a11 * (a11 * x + a12 * y + a13 * z) + a21 * (a21 * x + a22 * y + a23 * z)
        + a31 * (a31 * x + a32 * y + a33 * z)
        = (a11 * a11 + a21 * a21 + a31 * a31) * x + (a11 * a12 + a21 * a22 + a31 * a32) * y
          + (a11 * a13 + a21 * a23 + a31 * a33) * z"
    by (simp add: algebra_simps)
  then have c1: "a11 * (a11 * x + a12 * y + a13 * z) + a21 * (a21 * x + a22 * y + a23 * z)
        + a31 * (a31 * x + a32 * y + a33 * z) = x"
    by (simp add: u1 o12 o13)
  have "a12 * (a11 * x + a12 * y + a13 * z) + a22 * (a21 * x + a22 * y + a23 * z)
        + a32 * (a31 * x + a32 * y + a33 * z)
        = (a11 * a12 + a21 * a22 + a31 * a32) * x + (a12 * a12 + a22 * a22 + a32 * a32) * y
          + (a12 * a13 + a22 * a23 + a32 * a33) * z"
    by (simp add: algebra_simps)
  then have c2: "a12 * (a11 * x + a12 * y + a13 * z) + a22 * (a21 * x + a22 * y + a23 * z)
        + a32 * (a31 * x + a32 * y + a33 * z) = y"
    by (simp add: u2 o12 o23)
  have "a13 * (a11 * x + a12 * y + a13 * z) + a23 * (a21 * x + a22 * y + a23 * z)
        + a33 * (a31 * x + a32 * y + a33 * z)
        = (a11 * a13 + a21 * a23 + a31 * a33) * x + (a12 * a13 + a22 * a23 + a32 * a33) * y
          + (a13 * a13 + a23 * a23 + a33 * a33) * z"
    by (simp add: algebra_simps)
  then have c3: "a13 * (a11 * x + a12 * y + a13 * z) + a23 * (a21 * x + a22 * y + a23 * z)
        + a33 * (a31 * x + a32 * y + a33 * z) = z"
    by (simp add: u3 o13 o23)
  show ?thesis
    by (simp add: M a c1 c2 c3)
qed

lemma add3_sub3_cancel: "add3 (sub3 a p) p = a"
  by (cases a, cases p) simp

lemma local_frames_round_trip:
  assumes "orthonormal_columns rot"
  shows "affine (snd (local_frames rot p)) (affine (fst (local_frames rot p)) pts) = pts"
  by (simp add: affine_def local_frames_fwd local_frames_inv
        orthonormal_columns_inverse [OF assms] add3_sub3_cancel map_idI)

lemma construct_local_quadric_InrD:
  assumes "construct_local_quadric mg lspan m p = Inr (Cf, fwd, bwd)"
  obtains n rot where
    "unitize (get_normals mg (map (\<lambda>i. nodes m ! i) (neighbours_ind (coords m) p lspan))
        (nodes m) (coords m) (trigs m)) = Inr n"
    "rotate_vec2vec n (0, 0, 1) = Inr rot"
    "fwd = fst (local_frames rot p)" "bwd = snd (local_frames rot p)"
    "quad_fit (lstsq mg)
        (map (\<lambda>(x, y, z). (x, y)) (affine fwd (map (\<lambda>i. coords m ! i) (neighbours_ind (coords m) p lspan))))
        (map (\<lambda>(x, y, z). z) (affine fwd (map (\<lambda>i. coords m ! i) (neighbours_ind (coords m) p lspan))))
       = Inr Cf"
  using assms unfolding construct_local_quadric_def Let_def
  by (auto split: if_splits sum.splits prod.splits)

lemma isometry_orthonormal_columns:
  assumes "\<And>a b. dot3 (matvec3 M a) (matvec3 M b) = dot3 a b"
  shows "orthonormal_columns M"
proof -
  obtain a11 a12 a13 a21 a22 a23 a31 a32 a33 where
    M: "M = ((a11, a12, a13), (a21, a22, a23), (a31, a32, a33))"
    by (cases M rule: prod_cases3) auto
  have c1: "matvec3 M (1, 0, 0) = (a11, a21, a31)"
    and c2: "matvec3 M (0, 1, 0) = (a12, a22, a32)"
    and c3: "matvec3 M (0, 0, 1) = (a13, a23, a33)"
    by (simp_all add: M)
  have "dot3 (a11, a21, a31) (a11, a21, a31) = 1"
    unfolding c1 [symmetric] assms by simp
  moreover have "dot3 (a12, a22, a32) (a12, a22, a32) = 1"
    unfolding c2 [symmetric] assms by simp
  moreover have "dot3 (a13, a23, a33) (a13, a23, a33) = 1"
    unfolding c3 [symmetric] assms by simp
  moreover have "dot3 (a11, a21, a31) (a12, a22, a32) = 0"
    unfolding c1 [symmetric] c2 [symmetric] assms by simp
  moreover have "dot3 (a11, a21, a31) (a13, a23, a33) = 0"
    unfolding c1 [symmetric] c3 [symmetric] assms by simp
  moreover have "dot3 (a12, a22, a32) (a13, a23, a33) = 0"
    unfolding c2 [symmetric] c3 [symmetric] assms by simp
  ultimately show ?thesis
    unfolding orthonormal_columns_def M norm3_one_iff by simp
qed

lemma unit_z: "dot3 (0, 0, 1) (0, 0, 1) = 1"
  by simp

lemma construct_local_quadric_rot:
  assumes "construct_local_quadric mg lspan m p = Inr (Cf, fwd, bwd)"
  obtains rot where "get_rot fwd = rot" "get_rot bwd = transpose3 rot"
    "\<And>a b. dot3 (matvec3 rot a) (matvec3 rot b) = dot3 a b"
    "\<And>a b. dot3 (matvec3 (transpose3 rot) a) (matvec3 (transpose3 rot) b) = dot3 a b"
proof -
  from assms obtain n rot where
    n: "unitize (get_normals mg (map (\<lambda>i. nodes m ! i) (neighbours_ind (coords m) p lspan))
        (nodes m) (coords m) (trigs m)) = Inr n"
    and rot: "rotate_vec2vec n (0, 0, 1) = Inr rot"
    and f: "fwd = fst (local_frames rot p)" and b: "bwd = snd (local_frames rot p)"
    by (rule construct_local_quadric_InrD)
  note un = unitize_unit [OF n]
  show ?thesis
  proof (rule that [of rot])
    show "get_rot fwd = rot" by (simp add: f local_frames_get_rot)
    show "get_rot bwd = transpose3 rot" by (simp add: b local_frames_get_rot)
    show "\<And>a b. dot3 (matvec3 rot a) (matvec3 rot b) = dot3 a b"
      by (rule rotate_vec2vec_isometry(1) [OF rot un unit_z])
    show "\<And>a b. dot3 (matvec3 (transpose3 rot) a) (matvec3 (transpose3 rot) b) = dot3 a b"
      by (rule rotate_vec2vec_isometry(2) [OF rot un unit_z])
  qed
qed

lemma cross3_orth: "dot3 (cross3 a b) a = 0" "dot3 (cross3 a b) b = 0"
  by (cases a, cases b, simp add: algebra_simps)+

lemma define_coil_orientation_columns:
  assumes "unitize rot = Inr y" "unitize n = Inr z" "dot3 rot n = 0"
  shows "define_coil_orientation loc (Inr rot) (Inr n) =
           \<lparr>x_col = Inr (cross3 y z), y_col = Inr y, z_col = Inr z, c_col = loc,
            bottom_row = (0, 0, 0, 1)\<rparr>"
    and "dot3 y y = 1" "dot3 z z = 1" "dot3 y z = 0"
    and "dot3 (cross3 y z) (cross3 y z) = 1"
    and "dot3 (cross3 y z) y = 0" "dot3 (cross3 y z) z = 0"
proof -
  show "define_coil_orientation loc (Inr rot) (Inr n) =
           \<lparr>x_col = Inr (cross3 y z), y_col = Inr y, z_col = Inr z, c_col = loc,
            bottom_row = (0, 0, 0, 1)\<rparr>"
    by (simp add: define_coil_orientation_def unitize_f_def cross3_f_def assms(1,2))
  show yy: "dot3 y y = 1" and zz: "dot3 z z = 1"
    using unitize_unit [OF assms(1)] unitize_unit [OF assms(2)] by simp_all
  from assms(1,2) have "y = scale3 (1 / norm3 rot) rot" "z = scale3 (1 / norm3 n) n"
    by (auto simp: unitize_def split: if_splits)
  then show yz: "dot3 y z = 0"
    by (simp add: dot3_scale3 assms(3))
  show "dot3 (cross3 y z) (cross3 y z) = 1"
    by (simp add: lagrange yy zz yz)
  show "dot3 (cross3 y z) y = 0" "dot3 (cross3 y z) z = 0"
    by (rule cross3_orth)+
qed

lemma compute_principal_dir_unit:
  assumes "compute_principal_dir ef x y Cf = Inr (v1, v2, n)"
  shows "dot3 n n = 1"
proof -
  from assms have "unitize (cross3 (r_x x y Cf) (r_y x y Cf)) = Inr n"
    by (auto simp: compute_principal_dir_def Let_def split: prod.splits sum.splits)
  then show ?thesis by (rule unitize_unit)
qed

lemma interpolate_angle_pair:
  assumes "interpolate_angle [a, b] [c, d] t l = Inr p"
  obtains p0 p1 where "p = [p0, p1, 0]"
  using assms
  by (auto simp: interpolate_angle_def bcast_add_def Let_def split: if_splits)

lemma compute_principal_dir_returns:
  "\<exists>v1 v2 n. compute_principal_dir ef x y Cf = Inr (v1, v2, n)"
proof -
  obtain c0 c1 c2 c3 c4 c5 where C: "Cf = (c0, c1, c2, c3, c4, c5)"
    by (cases Cf) auto
  define w where "w = cross3 (r_x x y Cf) (r_y x y Cf)"
  obtain a b where w: "w = (a, b, 1)"
    by (simp add: w_def C)
  have "0 < dot3 w w"
    by (simp add: w add_nonneg_pos)
  then have "norm3 w \<noteq> 0"
    by (simp add: norm3_def)
  then have n: "unitize w = Inr (scale3 (1 / norm3 w) w)"
    by (simp add: unitize_def)
  define n where "n = scale3 (1 / norm3 w) w"
  obtain ev V00 V01 V10 V11 where
    e: "ef ((dot3 (0, 0, 2 * c4) n, dot3 (0, 0, c3) n),
            (dot3 (0, 0, c3) n, dot3 (0, 0, 2 * c5) n)) = (ev, ((V00, V01), (V10, V11)))"
    by (metis prod.exhaust)
  have "compute_principal_dir ef x y Cf = Inr ((V00, V10, 0), (V01, V11, 0), n)"
    using n e unfolding compute_principal_dir_def w_def [symmetric] Let_def C n_def
    by (simp add: w_def C)
  then show ?thesis by blast
qed

lemma quadratic_surf_rotation_InrD:
  assumes "quadratic_surf_rotation ef x y t Cf = Inr (pr, pn)"
  obtains v1 v2 p0 p1 where
    "compute_principal_dir ef x y Cf = Inr (v1, v2, pn)"
    "pr = (case rotate_vec2vec (0, 0, 1) pn of
             Inl e \<Rightarrow> Inl e
           | Inr R \<Rightarrow> Inr (matvec3 R (p0, p1, 0)))"
proof -
  from assms obtain v10 v11 v12 v20 v21 v22 n p where
    cp: "compute_principal_dir ef x y Cf = Inr ((v10, v11, v12), (v20, v21, v22), n)"
    and ia: "interpolate_angle [v10, v11] [v20, v21] t 90 = Inr p"
    and rest: "(case p of
                  [p0, p1, p2] \<Rightarrow>
                    Inr (case rotate_vec2vec (0, 0, 1) n of
                           Inl e \<Rightarrow> Inl e
                         | Inr R \<Rightarrow> Inr (matvec3 R (p0, p1, p2)),
                         n)
                | _ \<Rightarrow> Inl ValueError) = Inr (pr, pn)"
    unfolding quadratic_surf_rotation_def
    by (auto split: sum.splits prod.splits)
  from ia obtain p0 p1 where p: "p = [p0, p1, 0]"
    by (rule interpolate_angle_pair)
  from rest have n: "n = pn"
    and pr: "pr = (case rotate_vec2vec (0, 0, 1) n of
                     Inl e \<Rightarrow> Inl e
                   | Inr R \<Rightarrow> Inr (matvec3 R (p0, p1, 0)))"
    by (auto simp: p)
  show ?thesis
    by (rule that [OF cp [unfolded n] pr [unfolded n]])
qed

lemma quadratic_surf_rotation_orth:
  assumes "quadratic_surf_rotation ef x y t Cf = Inr (pr, pn)"
  shows "dot3 pn pn = 1" and "pr = Inr a \<Longrightarrow> dot3 a pn = 0"
proof -
  from assms obtain v1 v2 p0 p1 where
    cp: "compute_principal_dir ef x y Cf = Inr (v1, v2, pn)"
    and pr: "pr = (case rotate_vec2vec (0, 0, 1) pn of
                     Inl e \<Rightarrow> Inl e
                   | Inr R \<Rightarrow> Inr (matvec3 R (p0, p1, 0)))"
    by (rule quadratic_surf_rotation_InrD)
  show un: "dot3 pn pn = 1"
    by (rule compute_principal_dir_unit [OF cp])
  assume a: "pr = Inr a"
  with pr obtain R where R: "rotate_vec2vec (0, 0, 1) pn = Inr R"
    and ar: "a = matvec3 R (p0, p1, 0)"
    by (auto split: sum.splits)
  have pn: "matvec3 R (0, 0, 1) = pn"
    by (rule rotate_vec2vec_maps [OF R unit_z])
  have "dot3 a pn = dot3 (matvec3 R (p0, p1, 0)) (matvec3 R (0, 0, 1))"
    by (simp add: ar pn)
  also have "\<dots> = dot3 (p0, p1, 0) (0, 0, 1)"
    by (rule rotate_vec2vec_isometry(1) [OF R unit_z un])
  finally show "dot3 a pn = 0" by simp
qed

lemma get_sample_InrD:
  assumes "get_sample mg d m x y = Inr (sample, R, Cf, n)"
  obtains fwd v1 v2 n_r where
    "construct_local_quadric mg (local_span d) m
       (closest_point2surf mg (affine (self_iR d) [quadratic_surf_position x y (self_C d)])
          (coords m)) = Inr (Cf, fwd, R)"
    "compute_principal_dir (eig mg) 0 0 Cf = Inr (v1, v2, n)"
    "unitize (matvec3 (get_rot R) n) = Inr n_r"
    "sample = add3 (closest_point2surf mg
                      (affine (self_iR d) [quadratic_surf_position x y (self_C d)]) (coords m))
                (scale3 (distance d) n_r)"
  using assms unfolding get_sample_def Let_def
  by (auto split: sum.splits prod.splits)

lemma place_coil_InrD:
  assumes "place_coil mg d m x y theta fl = Inr P"
  obtains sample R Cf n pr pn where
    "get_sample mg d m x y = Inr (sample, R, Cf, n)"
    "quadratic_surf_rotation (eig mg) 0 0 theta Cf = Inr (pr, pn)"
    "P = define_coil_orientation (Inr sample) (matvec3_f (get_rot R) pr)
           (Inr (scale3 (if (case fl of None \<Rightarrow> True | Some b \<Rightarrow> b) then - 1 else 1)
                   (matvec3 (get_rot R) pn)))"
  using assms unfolding place_coil_def Let_def
  by (auto split: sum.splits prod.splits)

lemma unitize_of_unit:
  assumes "dot3 v v = 1"
  shows "unitize v = Inr v"
proof -
  have "norm3 v = 1" using assms by (simp add: norm3_one_iff)
  then show ?thesis by (cases v) (simp add: unitize_def)
qed

lemma get_sample_returns:
  assumes "construct_local_quadric mg (local_span d) m (snapped_point mg d m x y) =
             Inr (Cf, fwd, R)"
  shows "\<exists>sample n. get_sample mg d m x y = Inr (sample, R, Cf, n)"
proof -
  obtain v1 v2 n where cp: "compute_principal_dir (eig mg) 0 0 Cf = Inr (v1, v2, n)"
    using compute_principal_dir_returns by blast
  from assms obtain rot where R: "get_rot R = transpose3 rot"
    and iso: "\<And>a b. dot3 (matvec3 (transpose3 rot) a) (matvec3 (transpose3 rot) b) = dot3 a b"
    by (rule construct_local_quadric_rot) auto
  have "dot3 (matvec3 (get_rot R) n) (matvec3 (get_rot R) n) = 1"
    by (simp add: R iso compute_principal_dir_unit [OF cp])
  then have u: "unitize (matvec3 (get_rot R) n) = Inr (matvec3 (get_rot R) n)"
    by (rule unitize_of_unit)
  have "get_sample mg d m x y =
          Inr (add3 (snapped_point mg d m x y)
                 (scale3 (distance d) (matvec3 (get_rot R) n)), R, Cf, n)"
    using assms cp u unfolding get_sample_def snapped_point_def Let_def
    by simp
  then show ?thesis by blast
qed

lemma dot3_scale3_right: "dot3 a (scale3 k b) = k * dot3 a b"
  by (cases a, cases b) (simp add: algebra_simps)

subsection \<open>Running the concrete placement\<close>

lemma demo_neighbours: "0 < r \<Longrightarrow> neighbours_ind [(0, 0, 0)] (0, 0, 0) r = [0]"
  by (simp add: neighbours_ind_def norm3_def)

lemma demo_unitize: "unitize (1, 0, 0) = Inr (1, 0, 0)"
  by (simp add: unitize_def norm3_def)

lemma demo_rotate:
  "rotate_vec2vec (1, 0, 0) (0, 0, 1) = Inr ((0, 0, - 1), (0, 1, 0), (1, 0, 0))"
  by (simp add: rotate_vec2vec_def norm3_def eye3_def matmul3_def)

lemma demo_frames:
  "local_frames ((0, 0, - 1), (0, 1, 0), (1, 0, 0)) (0, 0, 0) = (demo_fwd, demo_bwd)"
  by (simp add: local_frames_def eye4_def neg3_def matmul4_def demo_fwd_def demo_bwd_def)

lemma demo_construct:
  assumes "0 < r" "f [(1, 0, 0, 0, 0, 0)] [0] = Inr (Cf, res, rk, sv)"
  shows "construct_local_quadric (demo_mg f) r demo_mesh (0, 0, 0) = Inr (Cf, demo_fwd, demo_bwd)"
proof -
  have aff: "affine demo_fwd [(0, 0, 0)] = [(0, 0, 0)]"
    by (simp add: affine_def demo_fwd_def)
  show ?thesis
    unfolding construct_local_quadric_def
    by (simp add: demo_mesh_def demo_neighbours [OF assms(1)] Let_def demo_mg_def
          get_normals_mean_def mean3_def demo_unitize demo_rotate
          demo_frames aff quad_fit_def assms(2))
qed


lemma sqrt_25_16: "sqrt (25 / 16) = 5 / 4"
  by (rule real_sqrt_unique) (simp_all add: power2_eq_square)

lemma demo_principal_dir:
  "compute_principal_dir eig_diag 0 0 demo_C = Inr ((1, 0, 0), (0, 1, 0), (0, - (3 / 5), 4 / 5))"
  by (simp add: compute_principal_dir_def demo_C_def unitize_def norm3_def sqrt_25_16
        eig_diag_def)

lemma demo_unitize_global: "unitize (4 / 5, - (3 / 5), 0) = Inr (4 / 5, - (3 / 5), 0)"
  by (simp add: unitize_def norm3_def)

lemma demo_get_sample:
  "get_sample (demo_mg (lstsq_const demo_C)) (demo_domain Cf) demo_mesh x y =
     Inr ((4 / 5, - (3 / 5), 0), demo_bwd, demo_C, (0, - (3 / 5), 4 / 5))"
proof -
  have c: "construct_local_quadric (demo_mg (lstsq_const demo_C)) 8 demo_mesh (0, 0, 0) =
             Inr (demo_C, demo_fwd, demo_bwd)"
    by (rule demo_construct [where res = "[]" and rk = 0 and sv = "[]"])
       (simp_all add: lstsq_const_def)
  have v: "closest_point2surf (demo_mg (lstsq_const demo_C)) q (coords demo_mesh) = (0, 0, 0)"
    for q
    by (simp add: demo_mg_def demo_mesh_def)
  have e: "eig (demo_mg (lstsq_const demo_C)) = eig_diag"
    by (simp add: demo_mg_def)
  have r: "matvec3 (get_rot demo_bwd) (0, - (3 / 5), 4 / 5) = (4 / 5, - (3 / 5), 0)"
    by (simp add: demo_bwd_def)
  show ?thesis
    unfolding get_sample_def Let_def v
    by (simp add: demo_domain_def c e demo_principal_dir r demo_unitize_global)
qed

lemma demo_interpolate: "interpolate_angle [1, 0] [0, 1] 0 90 = Inr [1, 0, 0]"
  by (simp add: interpolate_angle_def bcast_add_def)

lemma demo_rotate_local:
  "rotate_vec2vec (0, 0, 1) (0, - (3 / 5), 4 / 5) =
     Inr ((1, 0, 0), (0, 4 / 5, - (3 / 5)), (0, 3 / 5, 4 / 5))"
  by (simp add: rotate_vec2vec_def norm3_def eye3_def matmul3_def power2_eq_square)

lemma demo_surf_rotation:
  "quadratic_surf_rotation eig_diag 0 0 0 demo_C =
     Inr (Inr (1, 0, 0), (0, - (3 / 5), 4 / 5))"
  by (simp add: quadratic_surf_rotation_def demo_principal_dir demo_interpolate
        demo_rotate_local)

lemma demo_unitize_tangent: "unitize (0, 0, - 1) = Inr (0, 0, - 1)"
  by (simp add: unitize_def norm3_def)

lemma demo_unitize_flipped: "unitize (- (4 / 5), 3 / 5, 0) = Inr (- (4 / 5), 3 / 5, 0)"
  by (simp add: unitize_def norm3_def)

lemma demo_place_coil:
  "place_coil (demo_mg (lstsq_const demo_C)) (demo_domain Cf) demo_mesh 0 0 0 None =
     Inr demo_pose"
proof -
  have e: "eig (demo_mg (lstsq_const demo_C)) = eig_diag"
    by (simp add: demo_mg_def)
  show ?thesis
    unfolding place_coil_def Let_def demo_get_sample e
    by (simp add: demo_surf_rotation demo_bwd_def define_coil_orientation_def
          unitize_f_def cross3_f_def matvec3_f_def
          demo_unitize_tangent demo_unitize_flipped demo_pose_def)
qed

lemma demo_get_sample_coarse:
  "get_sample (demo_mg (lstsq_const demo_C)) coarse_domain demo_mesh 0 0 =
     Inr ((8 / 5, - (6 / 5), 0), demo_bwd, demo_C, (0, - (3 / 5), 4 / 5))"
proof -
  have c: "construct_local_quadric (demo_mg (lstsq_const demo_C)) 8 demo_mesh (0, 0, 0) =
             Inr (demo_C, demo_fwd, demo_bwd)"
    by (rule demo_construct [where res = "[]" and rk = 0 and sv = "[]"])
       (simp_all add: lstsq_const_def)
  have v: "closest_point2surf (demo_mg (lstsq_const demo_C)) q (coords demo_mesh) = (0, 0, 0)"
    for q
    by (simp add: demo_mg_def demo_mesh_def)
  have e: "eig (demo_mg (lstsq_const demo_C)) = eig_diag"
    by (simp add: demo_mg_def)
  have r: "matvec3 (get_rot demo_bwd) (0, - (3 / 5), 4 / 5) = (4 / 5, - (3 / 5), 0)"
    by (simp add: demo_bwd_def)
  show ?thesis
    unfolding get_sample_def Let_def v
    by (simp add: coarse_domain_def c e demo_principal_dir r demo_unitize_global)
qed

lemma demo_principal_dir_flat:
  "compute_principal_dir eig_diag 0 0 (0, 0, 0, 0, 0, 0) = Inr ((1, 0, 0), (0, 1, 0), (0, 0, 1))"
  by (simp add: compute_principal_dir_def unitize_def norm3_def eig_diag_def)

lemma demo_surf_rotation_flat:
  "quadratic_surf_rotation eig_diag 0 0 0 (0, 0, 0, 0, 0, 0) =
     Inr (Inl NonFinite, (0, 0, 1))"
proof -
  have r: "rotate_vec2vec (0, 0, 1) (0, 0, 1) = Inl NonFinite"
    by (simp add: rotate_vec2vec_def norm3_def)
  show ?thesis
    by (simp add: quadratic_surf_rotation_def demo_principal_dir_flat demo_interpolate r)
qed

lemma demo_get_sample_flat_fit:
  "get_sample (demo_mg (lstsq_const (0, 0, 0, 0, 0, 0))) (demo_domain (0, 0, 0, 0, 0, 0))
     demo_mesh x y =
     Inr ((1, 0, 0), demo_bwd, (0, 0, 0, 0, 0, 0), (0, 0, 1))"
proof -
  have c: "construct_local_quadric (demo_mg (lstsq_const (0, 0, 0, 0, 0, 0))) 8 demo_mesh
             (0, 0, 0) = Inr ((0, 0, 0, 0, 0, 0), demo_fwd, demo_bwd)"
    by (rule demo_construct [where res = "[]" and rk = 0 and sv = "[]"])
       (simp_all add: lstsq_const_def)
  have v: "closest_point2surf (demo_mg (lstsq_const (0, 0, 0, 0, 0, 0))) q (coords demo_mesh)
             = (0, 0, 0)" for q
    by (simp add: demo_mg_def demo_mesh_def)
  have e: "eig (demo_mg (lstsq_const (0, 0, 0, 0, 0, 0))) = eig_diag"
    by (simp add: demo_mg_def)
  have r: "matvec3 (get_rot demo_bwd) (0, 0, 1) = (1, 0, 0)"
    by (simp add: demo_bwd_def)
  show ?thesis
    unfolding get_sample_def Let_def v
    by (simp add: demo_domain_def c e demo_principal_dir_flat r demo_unitize)
qed

lemma demo_fwd_orthonormal: "orthonormal_columns (get_rot demo_fwd)"
  by (simp add: orthonormal_columns_def demo_fwd_def norm3_def)

lemma demo_construct_flat:
  "construct_local_quadric (demo_mg lstsq_zero_rhs) 8 demo_mesh (0, 0, 0) =
     Inr ((0, 0, 0, 0, 0, 0), demo_fwd, demo_bwd)"
  by (rule demo_construct [where res = "[]" and rk = 0 and sv = "[]"])
     (simp_all add: lstsq_zero_rhs_def)

text \<open>
  What holds of the poses that are finite: whenever the tangent column of the matrix that
  \<open>place_coil\<close> returns is finite, all three columns of the rotation block are, they have
  unit length and are pairwise orthogonal, the first is the cross product of the other
  two, and the last row is \<open>(0, 0, 0, 1)\<close>.
\<close>

lemma place_coil_finite_orthonormal:
  assumes "place_coil mg d m x y theta fl = Inr P" and "y_col P = Inr cy"
  shows "\<exists>cx cz. x_col P = Inr cx \<and> z_col P = Inr cz \<and>
           norm3 cx = 1 \<and> norm3 cy = 1 \<and> norm3 cz = 1 \<and>
           dot3 cx cy = 0 \<and> dot3 cx cz = 0 \<and> dot3 cy cz = 0 \<and>
           cx = cross3 cy cz \<and> bottom_row P = (0, 0, 0, 1)"
proof -
  define k :: real where "k = (if (case fl of None \<Rightarrow> True | Some b \<Rightarrow> b) then - 1 else 1)"
  from assms(1) obtain sample R Cf n pr pn where
    gs: "get_sample mg d m x y = Inr (sample, R, Cf, n)"
    and qr: "quadratic_surf_rotation (eig mg) 0 0 theta Cf = Inr (pr, pn)"
    and P: "P = define_coil_orientation (Inr sample) (matvec3_f (get_rot R) pr)
                  (Inr (scale3 k (matvec3 (get_rot R) pn)))"
    unfolding k_def by (rule place_coil_InrD)
  from gs obtain fwd where
    cl: "construct_local_quadric mg (local_span d) m
       (closest_point2surf mg (affine (self_iR d) [quadratic_surf_position x y (self_C d)])
          (coords m)) = Inr (Cf, fwd, R)"
    by (rule get_sample_InrD)
  from cl obtain rot where R: "get_rot R = transpose3 rot"
    and iso: "\<And>a b. dot3 (matvec3 (transpose3 rot) a) (matvec3 (transpose3 rot) b) = dot3 a b"
    by (rule construct_local_quadric_rot) auto
  from assms(2) obtain a where pr: "pr = Inr a"
    and y: "unitize (matvec3 (get_rot R) a) = Inr cy"
    unfolding P
    by (auto simp: define_coil_orientation_def Let_def unitize_f_def matvec3_f_def
          split: sum.splits)
  have kk: "k * k = 1" by (simp add: k_def)
  have "dot3 (scale3 k (matvec3 (get_rot R) pn)) (scale3 k (matvec3 (get_rot R) pn)) = 1"
    by (simp add: dot3_scale3 kk R iso quadratic_surf_rotation_orth(1) [OF qr])
  then have z: "unitize (scale3 k (matvec3 (get_rot R) pn)) =
                  Inr (scale3 k (matvec3 (get_rot R) pn))"
    by (rule unitize_of_unit)
  have orth: "dot3 (matvec3 (get_rot R) a) (scale3 k (matvec3 (get_rot R) pn)) = 0"
    by (simp add: dot3_scale3_right R iso quadratic_surf_rotation_orth(2) [OF qr pr])
  note dc = define_coil_orientation_columns [OF y z orth]
  have P': "P = \<lparr>x_col = Inr (cross3 cy (scale3 k (matvec3 (get_rot R) pn))),
                  y_col = Inr cy, z_col = Inr (scale3 k (matvec3 (get_rot R) pn)),
                  c_col = Inr sample, bottom_row = (0, 0, 0, 1)\<rparr>"
    unfolding P pr using dc(1) [of "Inr sample"] by (simp add: matvec3_f_def)
  show ?thesis
    using dc(2-) by (simp add: P' norm3_one_iff)
qed

text \<open>
  On a fine fit that is exactly flat (\<open>b = c = 0\<close>) the local normal is \<open>(0, 0, 1)\<close>, so
  \<open>rotate_vec2vec(z, n)\<close> is the degenerate rotation and the tangent direction is NaN:
  \<open>place_coil\<close> returns a matrix whose x and y columns are NaN.
\<close>

lemma place_coil_flat_fit:
  assumes "get_sample mg d m x y = Inr (sample, R, (c0, 0, 0, c3, c4, c5), n)"
  shows "\<exists>P. place_coil mg d m x y theta fl = Inr P \<and>
              x_col P = Inl NonFinite \<and> y_col P = Inl NonFinite"
proof -
  let ?C = "(c0, 0, 0, c3, c4, c5)"
  obtain v1 v2 w where cp: "compute_principal_dir (eig mg) 0 0 ?C = Inr (v1, v2, w)"
    using compute_principal_dir_returns by blast
  then have "unitize (cross3 (r_x 0 0 ?C) (r_y 0 0 ?C)) = Inr w"
    by (auto simp: compute_principal_dir_def Let_def split: prod.splits sum.splits)
  then have w: "w = (0, 0, 1)"
    by (simp add: unitize_def norm3_def)
  obtain v10 v11 v12 v20 v21 v22 where v: "v1 = (v10, v11, v12)" "v2 = (v20, v21, v22)"
    by (cases v1, cases v2) auto
  obtain p where ia: "interpolate_angle [v10, v11] [v20, v21] theta 90 = Inr p"
    by (simp add: interpolate_angle_def bcast_add_def Let_def)
  then obtain p0 p1 where p: "p = [p0, p1, 0]"
    by (rule interpolate_angle_pair)
  have r: "rotate_vec2vec (0, 0, 1) (0, 0, 1) = Inl NonFinite"
    by (simp add: rotate_vec2vec_def norm3_def)
  have qr: "quadratic_surf_rotation (eig mg) 0 0 theta ?C = Inr (Inl NonFinite, (0, 0, 1))"
    unfolding quadratic_surf_rotation_def
    by (simp add: cp [unfolded w v] ia p r)
  show ?thesis
    unfolding place_coil_def Let_def
    by (simp add: assms qr define_coil_orientation_def unitize_f_def cross3_f_def
          matvec3_f_def Let_def)
qed

text \<open>
  C1. Every pose that \<open>place_coil\<close> returns has to have a rotation block with unit-length,
  pairwise orthogonal columns. On the one-vertex mesh with a flat fine fit (the zero
  vector, which is the least-squares answer there, see \<open>is_lstsq_zero_rhs\<close>) the call
  returns a matrix whose x and y columns are NaN; only the z column, the position and the
  last row are finite.
\<close>

theorem place_coil_flat_fit_nan:
  "place_coil (demo_mg (lstsq_const (0, 0, 0, 0, 0, 0))) (demo_domain (0, 0, 0, 0, 0, 0))
     demo_mesh 0 0 0 None = Inr flat_pose \<and>
   x_col flat_pose = Inl NonFinite \<and> y_col flat_pose = Inl NonFinite \<and>
   z_col flat_pose = Inr (- 1, 0, 0) \<and> bottom_row flat_pose = (0, 0, 0, 1)"
proof -
  have e: "eig (demo_mg (lstsq_const (0, 0, 0, 0, 0, 0))) = eig_diag"
    by (simp add: demo_mg_def)
  have "place_coil (demo_mg (lstsq_const (0, 0, 0, 0, 0, 0))) (demo_domain (0, 0, 0, 0, 0, 0))
     demo_mesh 0 0 0 None = Inr flat_pose"
    unfolding place_coil_def Let_def demo_get_sample_flat_fit e
    by (simp add: demo_surf_rotation_flat demo_bwd_def define_coil_orientation_def Let_def
          unitize_f_def cross3_f_def matvec3_f_def unitize_def norm3_def flat_pose_def)
  then show ?thesis
    by (simp add: flat_pose_def)
qed

lemma local_frames_rigid:
  "local_frames rot p = (rigid rot (neg3 (matvec3 rot p)), rigid (transpose3 rot) p)"
  by (cases rot rule: prod_cases3, cases p rule: prod_cases3)
     (auto simp: local_frames_def rigid_def Let_def eye4_def matmul4_def neg3_def
        algebra_simps)

lemma matmul4_rigid:
  "matmul4 (rigid A s) (rigid B t) = rigid (matmul3 A B) (add3 (matvec3 A t) s)"
  by (cases A rule: prod_cases3, cases B rule: prod_cases3, cases s rule: prod_cases3,
      cases t rule: prod_cases3)
     (auto simp: rigid_def eye4_def matmul4_def matmul3_def algebra_simps)

lemma orthonormal_columns_matmul3:
  assumes "orthonormal_columns M"
  shows "matmul3 (transpose3 M) M = eye3"
proof -
  obtain a11 a12 a13 a21 a22 a23 a31 a32 a33 where
    M: "M = ((a11, a12, a13), (a21, a22, a23), (a31, a32, a33))"
    by (cases M rule: prod_cases3) auto
  from assms have
    "a11 * a11 + a21 * a21 + a31 * a31 = 1"
    "a12 * a12 + a22 * a22 + a32 * a32 = 1"
    "a13 * a13 + a23 * a23 + a33 * a33 = 1"
    "a11 * a12 + a21 * a22 + a31 * a32 = 0"
    "a11 * a13 + a21 * a23 + a31 * a33 = 0"
    "a12 * a13 + a22 * a23 + a32 * a33 = 0"
    by (simp_all add: orthonormal_columns_def M norm3_one_iff)
  then show ?thesis
    by (simp add: M matmul3_def eye3_def mult.commute)
qed

lemma rigid_eye: "rigid eye3 (0, 0, 0) = eye4"
  by (simp add: rigid_def eye3_def eye4_def)

lemma matvec3_neg3: "matvec3 A (neg3 v) = neg3 (matvec3 A v)"
  by (cases A rule: prod_cases3) (simp add: neg3_def dot3_neg3 [unfolded neg3_def])

lemma add3_neg3: "add3 (neg3 a) a = (0, 0, 0)"
  by (cases a) (simp add: neg3_def)

lemma local_frames_inverse:
  assumes "orthonormal_columns rot"
  shows "matmul4 (snd (local_frames rot p)) (fst (local_frames rot p)) = eye4"
  by (simp add: local_frames_rigid matmul4_rigid orthonormal_columns_matmul3 [OF assms]
        matvec3_neg3 orthonormal_columns_inverse [OF assms] add3_neg3 rigid_eye)

lemma construct_local_quadric_orthonormal:
  assumes "construct_local_quadric mg lspan m p = Inr (Cf, fwd, bwd)"
  shows "orthonormal_columns (get_rot fwd)"
proof -
  from assms obtain rot where "get_rot fwd = rot"
    and "\<And>a b. dot3 (matvec3 rot a) (matvec3 rot b) = dot3 a b"
    by (rule construct_local_quadric_rot) auto
  then show ?thesis
    by (auto intro: isometry_orthonormal_columns)
qed

text \<open>
  C4. For the forward and inverse frames that \<open>_construct_local_quadric\<close> returns, if the
  rotation block of the forward frame is orthonormal then the rotation block of the
  inverse frame is its transpose, the inverse frame times the forward frame is the
  identity, and applying the forward and then the inverse frame to any list of points
  gives the points back. (By \<open>construct_local_quadric_orthonormal\<close> the rotation block of
  every forward frame that is returned is orthonormal.)
\<close>

theorem frame_round_trip:
  assumes "construct_local_quadric mg lspan m p = Inr (Cf, fwd, bwd)"
    and "orthonormal_columns (get_rot fwd)"
  shows "get_rot bwd = transpose3 (get_rot fwd) \<and> matmul4 bwd fwd = eye4 \<and>
         affine bwd (affine fwd pts) = pts"
proof -
  from assms(1) obtain n rot where
    f: "fwd = fst (local_frames rot p)" and b: "bwd = snd (local_frames rot p)"
    by (rule construct_local_quadric_InrD)
  have rot: "orthonormal_columns rot"
    using assms(2) by (simp add: f local_frames_get_rot)
  show ?thesis
    unfolding f b
    by (simp add: local_frames_get_rot local_frames_inverse [OF rot]
          local_frames_round_trip [OF rot])
qed

theorem frame_round_trip_witness:
  "construct_local_quadric (demo_mg lstsq_zero_rhs) 8 demo_mesh (0, 0, 0) =
     Inr ((0, 0, 0, 0, 0, 0), demo_fwd, demo_bwd) \<and>
   orthonormal_columns (get_rot demo_fwd) \<and>
   get_rot demo_bwd = transpose3 (get_rot demo_fwd) \<and> matmul4 demo_bwd demo_fwd = eye4 \<and>
   affine demo_bwd (affine demo_fwd [(0, 0, 0), (1, 2, 3)]) = [(0, 0, 0), (1, 2, 3)]"
  using frame_round_trip [OF demo_construct_flat demo_fwd_orthonormal,
      of "[(0, 0, 0), (1, 2, 3)]"]
    demo_construct_flat demo_fwd_orthonormal
  by simp

lemma norm3_scale3: "norm3 (scale3 k a) = \<bar>k\<bar> * norm3 a"
proof -
  have "dot3 (scale3 k a) (scale3 k a) = k\<^sup>2 * dot3 a a"
    by (simp add: dot3_scale3 power2_eq_square)
  then show ?thesis
    by (simp add: norm3_def real_sqrt_mult)
qed

lemma sub3_add3_cancel: "sub3 (add3 v w) v = w"
  by (cases v, cases w) simp

text \<open>
  C5. When \<open>_get_sample\<close> succeeds, the frame and coefficients it returns are those of the
  quadric re-fitted at the snapped mesh point, the normal it returns is the normal of that
  fine fit at its origin, and the position is the snapped point plus \<open>distance\<close> times a
  unit vector, the normalised image of the fine-fit normal under the rotation block of
  the fine inverse frame; so its Euclidean distance to the snapped point is \<open>|distance|\<close>.
\<close>

theorem get_sample_standoff:
  assumes "get_sample mg d m x y = Inr (sample, R, Cf, n)"
  shows "\<exists>fwd v1 v2 u.
           construct_local_quadric mg (local_span d) m (snapped_point mg d m x y) =
             Inr (Cf, fwd, R) \<and>
           compute_principal_dir (eig mg) 0 0 Cf = Inr (v1, v2, n) \<and>
           unitize (matvec3 (get_rot R) n) = Inr u \<and> norm3 u = 1 \<and>
           sample = add3 (snapped_point mg d m x y) (scale3 (distance d) u) \<and>
           norm3 (sub3 sample (snapped_point mg d m x y)) = \<bar>distance d\<bar>"
proof -
  from assms obtain fwd v1 v2 n_r where
    cl: "construct_local_quadric mg (local_span d) m (snapped_point mg d m x y) =
           Inr (Cf, fwd, R)"
    and cp: "compute_principal_dir (eig mg) 0 0 Cf = Inr (v1, v2, n)"
    and u: "unitize (matvec3 (get_rot R) n) = Inr n_r"
    and s: "sample = add3 (snapped_point mg d m x y) (scale3 (distance d) n_r)"
    unfolding snapped_point_def by (rule get_sample_InrD)
  have unit: "norm3 n_r = 1"
    using unitize_unit [OF u] by (simp add: norm3_one_iff)
  have "norm3 (sub3 sample (snapped_point mg d m x y)) = \<bar>distance d\<bar>"
    by (simp add: s sub3_add3_cancel norm3_scale3 unit)
  with cl cp u unit s show ?thesis by blast
qed

theorem get_sample_standoff_witness:
  "get_sample (demo_mg (lstsq_const demo_C)) coarse_domain demo_mesh 0 0 =
     Inr ((8 / 5, - (6 / 5), 0), demo_bwd, demo_C, (0, - (3 / 5), 4 / 5)) \<and>
   snapped_point (demo_mg (lstsq_const demo_C)) coarse_domain demo_mesh 0 0 = (0, 0, 0) \<and>
   construct_local_quadric (demo_mg (lstsq_const demo_C)) 8 demo_mesh (0, 0, 0) =
     Inr (demo_C, demo_fwd, demo_bwd) \<and>
   compute_principal_dir eig_diag 0 0 demo_C =
     Inr ((1, 0, 0), (0, 1, 0), (0, - (3 / 5), 4 / 5)) \<and>
   unitize (matvec3 (get_rot demo_bwd) (0, - (3 / 5), 4 / 5)) = Inr (4 / 5, - (3 / 5), 0) \<and>
   norm3 (sub3 (8 / 5, - (6 / 5), 0) (0, 0, 0)) = 2"
proof -
  note gs = demo_get_sample_coarse
  have sp: "snapped_point (demo_mg (lstsq_const demo_C)) coarse_domain demo_mesh 0 0 = (0, 0, 0)"
    by (simp add: snapped_point_def demo_mg_def demo_mesh_def)
  have ls: "local_span coarse_domain = 8" and ds: "distance coarse_domain = 2"
    by (simp_all add: coarse_domain_def)
  have e: "eig (demo_mg (lstsq_const demo_C)) = eig_diag"
    by (simp add: demo_mg_def)
  from get_sample_standoff [OF gs] obtain fwd v1 v2 u where
    cl: "construct_local_quadric (demo_mg (lstsq_const demo_C)) 8 demo_mesh (0, 0, 0) =
           Inr (demo_C, fwd, demo_bwd)"
    and cp: "compute_principal_dir eig_diag 0 0 demo_C = Inr (v1, v2, (0, - (3 / 5), 4 / 5))"
    and u: "unitize (matvec3 (get_rot demo_bwd) (0, - (3 / 5), 4 / 5)) = Inr u"
    and nrm: "norm3 (sub3 (8 / 5, - (6 / 5), 0) (0, 0, 0)) = 2"
    unfolding sp ls ds e by auto
  have c: "construct_local_quadric (demo_mg (lstsq_const demo_C)) 8 demo_mesh (0, 0, 0) =
             Inr (demo_C, demo_fwd, demo_bwd)"
    using cl
    by (simp add: demo_construct [where res = "[]" and rk = 0 and sv = "[]"] lstsq_const_def)
  have r: "matvec3 (get_rot demo_bwd) (0, - (3 / 5), 4 / 5) = (4 / 5, - (3 / 5), 0)"
    by (simp add: demo_bwd_def)
  show ?thesis
    using gs sp c nrm by (simp add: demo_principal_dir r demo_unitize_global)
qed

text \<open>
  C10. A call of \<open>place_coil\<close> that omits \<open>flip_norm\<close> behaves as \<open>flip_norm=True\<close>: it
  returns, and the z axis of the returned pose is the negation of the global surface
  normal \<open>R[:3, :3] @ preaff_norm\<close>; with \<open>flip_norm=False\<close> it is that normal itself.
\<close>

theorem place_coil_flip_norm:
  assumes "get_sample mg d m x y = Inr (sample, R, Cf, n)"
    and "quadratic_surf_rotation (eig mg) 0 0 theta Cf = Inr (pr, pn)"
  shows "place_coil mg d m x y theta None = place_coil mg d m x y theta (Some True) \<and>
         (\<exists>P. place_coil mg d m x y theta None = Inr P) \<and>
         (\<exists>P. place_coil mg d m x y theta (Some False) = Inr P) \<and>
         (\<forall>P. place_coil mg d m x y theta None = Inr P \<longrightarrow>
                z_col P = Inr (neg3 (matvec3 (get_rot R) pn))) \<and>
         (\<forall>P. place_coil mg d m x y theta (Some False) = Inr P \<longrightarrow>
                z_col P = Inr (matvec3 (get_rot R) pn))"
proof -
  define ng where "ng = matvec3 (get_rot R) pn"
  from assms(1) obtain fwd where
    cl: "construct_local_quadric mg (local_span d) m
       (closest_point2surf mg (affine (self_iR d) [quadratic_surf_position x y (self_C d)])
          (coords m)) = Inr (Cf, fwd, R)"
    by (rule get_sample_InrD)
  from cl obtain rot where R: "get_rot R = transpose3 rot"
    and iso: "\<And>a b. dot3 (matvec3 (transpose3 rot) a) (matvec3 (transpose3 rot) b) = dot3 a b"
    by (rule construct_local_quadric_rot) auto
  have ng: "dot3 ng ng = 1"
    by (simp add: ng_def R iso quadratic_surf_rotation_orth(1) [OF assms(2)])
  have "dot3 (neg3 ng) (neg3 ng) = 1"
    by (simp add: dot3_neg3 ng)
  then have flip: "unitize (scale3 (- 1) ng) = Inr (neg3 ng)"
    using unitize_of_unit [of "neg3 ng"] by (simp add: neg3_def)
  have keep: "unitize (scale3 1 ng) = Inr ng"
    using unitize_of_unit [OF ng] by (cases ng) simp
  have pc: "place_coil mg d m x y theta fl =
      Inr (define_coil_orientation (Inr sample) (matvec3_f (get_rot R) pr)
             (Inr (scale3 (if (case fl of None \<Rightarrow> True | Some b \<Rightarrow> b) then - 1 else 1) ng)))"
    for fl
    by (simp add: place_coil_def assms ng_def Let_def)
  have 1: "place_coil mg d m x y theta None = place_coil mg d m x y theta (Some True)"
    by (simp add: pc)
  have 2: "z_col P = Inr (neg3 ng)" if "place_coil mg d m x y theta None = Inr P" for P
    using that unfolding pc
    by (auto simp: define_coil_orientation_def unitize_f_def flip Let_def)
  have 3: "z_col P = Inr ng" if "place_coil mg d m x y theta (Some False) = Inr P" for P
    using that unfolding pc
    by (auto simp: define_coil_orientation_def unitize_f_def keep Let_def)
  have 4: "\<exists>P. place_coil mg d m x y theta fl = Inr P" for fl
    unfolding pc by blast
  show ?thesis
    using 1 2 3 4 unfolding ng_def by blast
qed

theorem place_coil_flip_norm_witness:
  "get_sample (demo_mg (lstsq_const demo_C)) (demo_domain demo_C) demo_mesh 0 0 =
     Inr ((4 / 5, - (3 / 5), 0), demo_bwd, demo_C, (0, - (3 / 5), 4 / 5)) \<and>
   quadratic_surf_rotation (eig (demo_mg (lstsq_const demo_C))) 0 0 0 demo_C =
     Inr (Inr (1, 0, 0), (0, - (3 / 5), 4 / 5)) \<and>
   place_coil (demo_mg (lstsq_const demo_C)) (demo_domain demo_C) demo_mesh 0 0 0 None =
     Inr demo_pose \<and>
   z_col demo_pose = Inr (neg3 (matvec3 (get_rot demo_bwd) (0, - (3 / 5), 4 / 5))) \<and>
   z_col demo_pose = Inr (- (4 / 5), 3 / 5, 0)"
proof -
  note gs = demo_get_sample [of demo_C 0 0]
  have qr: "quadratic_surf_rotation (eig (demo_mg (lstsq_const demo_C))) 0 0 0 demo_C =
     Inr (Inr (1, 0, 0), (0, - (3 / 5), 4 / 5))"
    by (simp add: demo_mg_def demo_surf_rotation)
  note pc = demo_place_coil [of demo_C]
  from place_coil_flip_norm [OF gs qr] pc
  have z: "z_col demo_pose = Inr (neg3 (matvec3 (get_rot demo_bwd) (0, - (3 / 5), 4 / 5)))"
    by blast
  have "z_col demo_pose = Inr (- (4 / 5), 3 / 5, 0)"
    by (simp add: demo_pose_def)
  with gs qr pc z show ?thesis by simp
qed

text \<open>
  C7, as stated, fails: \<open>interpolate_angle\<close> returns the blend with a zero appended, a
  vector one component longer than \<open>u\<close> and \<open>v\<close>, so its value at \<open>t = 0\<close> is not \<open>u\<close> and
  its value at \<open>t = P\<close> is not \<open>v\<close>.
\<close>

theorem interpolate_angle_counterexample:
  "interpolate_angle [1, 0] [0, 1] 0 90 = Inr [1, 0, 0] \<and>
   interpolate_angle [1, 0] [0, 1] 0 90 \<noteq> Inr [1, 0] \<and>
   interpolate_angle [1, 0] [0, 1] 90 90 = Inr [0, 1, 0] \<and>
   interpolate_angle [1, 0] [0, 1] 90 90 \<noteq> Inr [0, 1]"
  by (simp add: interpolate_angle_def bcast_add_def)

lemma map2_scale: "length u = length v \<Longrightarrow>
   map2 (+) (map (\<lambda>a. a * c) u) (map (\<lambda>b. b * s) v) = map2 (\<lambda>a b. a * c + b * s) u v"
  by (induction u v rule: list_induct2) simp_all

lemma map2_fst: "length u = length v \<Longrightarrow> map2 (\<lambda>a b. a) u v = u"
  by (induction u v rule: list_induct2) simp_all

lemma map2_snd: "length u = length v \<Longrightarrow> map2 (\<lambda>a b. b) u v = v"
  by (induction u v rule: list_induct2) simp_all

text \<open>
  C7, amended. For vectors \<open>u\<close>, \<open>v\<close> of the same length and every period \<open>P > 0\<close>,
  \<open>interpolate_angle\<close> returns \<open>u * cos(theta) + v * sin(theta)\<close> followed by one zero
  component, with \<open>theta = (t / P) * (pi / 2)\<close>: at \<open>t = 0\<close> this is \<open>u\<close> followed by a zero
  and at \<open>t = P\<close> it is \<open>v\<close> followed by a zero.
\<close>

theorem interpolate_angle_boundary:
  assumes "0 < P" "length u = length v"
  shows "interpolate_angle u v t P =
           Inr (map2 (\<lambda>a b. a * cos ((t / P) * (pi / 2)) + b * sin ((t / P) * (pi / 2))) u v
                @ [0]) \<and>
         interpolate_angle u v 0 P = Inr (u @ [0]) \<and>
         interpolate_angle u v P P = Inr (v @ [0])"
proof -
  have gen: "interpolate_angle u v t P =
           Inr (map2 (\<lambda>a b. a * cos ((t / P) * (pi / 2)) + b * sin ((t / P) * (pi / 2))) u v
                @ [0])" for t
    using assms by (simp add: interpolate_angle_def bcast_add_def Let_def map2_scale)
  have z: "(0 / P) * (pi / 2) = 0" by simp
  have q: "(P / P) * (pi / 2) = pi / 2" using assms(1) by simp
  have "interpolate_angle u v 0 P = Inr (u @ [0])"
    unfolding gen z by (simp add: map2_fst [OF assms(2)])
  moreover have "interpolate_angle u v P P = Inr (v @ [0])"
    unfolding gen q by (simp add: map2_snd [OF assms(2)])
  ultimately show ?thesis using gen by blast
qed

theorem interpolate_angle_boundary_witness:
  "(0::real) < 90 \<and> length [1, 0 :: real] = length [0, 1 :: real] \<and>
   interpolate_angle [1, 0] [0, 1] 0 90 = Inr ([1, 0] @ [0]) \<and>
   interpolate_angle [1, 0] [0, 1] 90 90 = Inr ([0, 1] @ [0])"
  using interpolate_angle_boundary [of 90 "[1, 0]" "[0, 1]" 0]
  by simp

lemma residual_nonneg: "0 \<le> residual A b Cf"
  unfolding residual_def by (rule sum_list_nonneg) auto

lemma dot6_zero: "dot6 r (0, 0, 0, 0, 0, 0) = 0"
  by (cases r) simp

lemma residual_zero_rhs:
  assumes "\<forall>h \<in> set b. h = 0"
  shows "residual A b (0, 0, 0, 0, 0, 0) = 0"
  using assms
proof (induction A arbitrary: b)
  case Nil
  then show ?case by (simp add: residual_def)
next
  case (Cons r A)
  show ?case
  proof (cases b)
    case Nil
    then show ?thesis by (simp add: residual_def)
  next
    case (Cons h b')
    with Cons.prems have "h = 0" "\<forall>h \<in> set b'. h = 0" by simp_all
    with Cons.IH [of b'] show ?thesis
      by (simp add: residual_def Cons dot6_zero)
  qed
qed

lemma dot6_self_zero:
  assumes "dot6 Cf Cf \<le> 0"
  shows "Cf = (0, 0, 0, 0, 0, 0)"
proof -
  obtain a0 a1 a2 a3 a4 a5 where C: "Cf = (a0, a1, a2, a3, a4, a5)"
    by (cases Cf) auto
  from assms have le: "a0 * a0 + a1 * a1 + a2 * a2 + a3 * a3 + a4 * a4 + a5 * a5 \<le> 0"
    by (simp add: C)
  have nn: "0 \<le> a0 * a0" "0 \<le> a1 * a1" "0 \<le> a2 * a2" "0 \<le> a3 * a3" "0 \<le> a4 * a4"
    "0 \<le> a5 * a5"
    by simp_all
  from le nn have "a0 * a0 = 0" "a1 * a1 = 0" "a2 * a2 = 0" "a3 * a3 = 0" "a4 * a4 = 0"
    "a5 * a5 = 0"
    by linarith+
  then show ?thesis by (simp add: C)
qed

lemma is_lstsq_zero_rhs:
  assumes "\<forall>h \<in> set b. h = 0"
  shows "is_lstsq A b Cf \<longleftrightarrow> Cf = (0, 0, 0, 0, 0, 0)"
proof
  assume l: "is_lstsq A b Cf"
  have "\<forall>C''. residual A b (0, 0, 0, 0, 0, 0) \<le> residual A b C''"
    by (simp add: residual_zero_rhs [OF assms] residual_nonneg)
  with l have "dot6 Cf Cf \<le> dot6 (0, 0, 0, 0, 0, 0) (0, 0, 0, 0, 0, 0)"
    unfolding is_lstsq_def by blast
  then show "Cf = (0, 0, 0, 0, 0, 0)"
    by (intro dot6_self_zero) simp
next
  assume "Cf = (0, 0, 0, 0, 0, 0)"
  moreover have "0 \<le> dot6 C' C'" for C'
    by (cases C') simp
  ultimately show "is_lstsq A b Cf"
    unfolding is_lstsq_def
    by (simp add: residual_zero_rhs [OF assms] residual_nonneg)
qed

lemma lstsq_zero_rhs_contract: "lstsq_contract lstsq_zero_rhs"
  unfolding lstsq_contract_def lstsq_zero_rhs_def
  by (auto simp: is_lstsq_zero_rhs split: if_splits)

text \<open>
  C8. With a least-squares routine that honours its contract, a fit against heights that
  are all zero returns the zero coefficient vector: the entries \<open>b, c, d, e, f\<close> (and \<open>a\<close>)
  are zero, and this vector is the least-squares solution of the system.
\<close>

theorem quad_fit_planar:
  assumes "lstsq_contract solve" "\<forall>h \<in> set b. h = 0" "quad_fit solve X b = Inr Cf"
  shows "Cf = (0, 0, 0, 0, 0, 0) \<and> is_lstsq (map design_row X) b Cf"
proof -
  from assms(3) obtain res rk sv where "solve (map design_row X) b = Inr (Cf, res, rk, sv)"
    by (auto simp: quad_fit_def Let_def split: sum.splits prod.splits)
  with assms(1) have l: "is_lstsq (map design_row X) b Cf"
    unfolding lstsq_contract_def by blast
  then show ?thesis
    by (simp add: is_lstsq_zero_rhs [OF assms(2)])
qed

theorem quad_fit_planar_witness:
  "lstsq_contract lstsq_zero_rhs \<and>
   quad_fit lstsq_zero_rhs [(0, 0), (1, 0), (0, 1)] [0, 0, 0] = Inr (0, 0, 0, 0, 0, 0) \<and>
   is_lstsq (map design_row [(0, 0), (1, 0), (0, 1)]) [0, 0, 0] (0, 0, 0, 0, 0, 0)"
proof -
  have b: "\<forall>h \<in> set [0, 0, 0 :: real]. h = 0" by simp
  have q: "quad_fit lstsq_zero_rhs [(0, 0), (1, 0), (0, 1)] [0, 0, 0] = Inr (0, 0, 0, 0, 0, 0)"
    by (simp add: quad_fit_def lstsq_zero_rhs_def)
  from quad_fit_planar [OF lstsq_zero_rhs_contract b q] lstsq_zero_rhs_contract q
  show ?thesis by blast
qed














text \<open>
  C2. \<open>rotate_vec2vec((0,0,1), (0,0,1))\<close> has to be the identity matrix. The code
  divides by \<open>sinv**2 = 0\<close> there and returns a matrix of NaN.
\<close>

theorem rotate_vec2vec_parallel_nonfinite:
  "rotate_vec2vec (0, 0, 1) (0, 0, 1) = Inl NonFinite \<and>
   rotate_vec2vec (0, 0, 1) (0, 0, 1) \<noteq> Inr eye3"
  by (simp add: rotate_vec2vec_def norm3_def)

text \<open>
  C9. For all coefficients and every point, \<open>compute_principal_dir\<close> returns a normal of
  unit length whose third component is strictly positive: before normalisation the
  normal \<open>r_x \<times> r_y\<close> has third component exactly 1.
\<close>

theorem compute_principal_dir_normal:
  "\<exists>v1 v2 n. compute_principal_dir ef x y C = Inr (v1, v2, n) \<and>
     norm3 n = 1 \<and> 0 < zcomp n \<and> zcomp (cross3 (r_x x y C) (r_y x y C)) = 1"
proof -
  obtain c0 c1 c2 c3 c4 c5 where C: "C = (c0, c1, c2, c3, c4, c5)"
    by (cases C) auto
  define m where "m = cross3 (r_x x y C) (r_y x y C)"
  obtain a b where m: "m = (a, b, 1)"
    by (simp add: m_def C)
  have pos: "0 < dot3 m m"
    by (simp add: m add_nonneg_pos)
  then have nz: "norm3 m \<noteq> 0" and npos: "0 < norm3 m"
    by (simp_all add: norm3_def)
  define n where "n = scale3 (1 / norm3 m) m"
  have un: "unitize m = Inr n"
    using nz by (simp add: unitize_def n_def)
  obtain w V00 V01 V10 V11 where
    e: "ef ((dot3 (0, 0, 2 * c4) n, dot3 (0, 0, c3) n),
             (dot3 (0, 0, c3) n, dot3 (0, 0, 2 * c5) n)) = (w, ((V00, V01), (V10, V11)))"
    by (metis prod.exhaust)
  have res: "compute_principal_dir ef x y C = Inr ((V00, V10, 0), (V01, V11, 0), n)"
    using un e unfolding compute_principal_dir_def m_def [symmetric] Let_def C
    by (simp add: m_def C)
  have "dot3 n n = 1" using unitize_unit [OF un] .
  then have unit: "norm3 n = 1" by (simp add: norm3_def)
  have "zcomp n = 1 / norm3 m" by (simp add: n_def m zcomp_def)
  then have "0 < zcomp n" using npos by simp
  moreover have "zcomp m = 1" by (simp add: m zcomp_def)
  ultimately show ?thesis
    using res unit unfolding m_def by auto
qed

end
